theory Spec2Isabelle
  imports Main "HOL-Library.Word" "HOL-Library.List_Lexorder" "HOL-Library.Sublist"
begin

section \<open>JavaScript strings\<close>

text \<open>
  A JavaScript string is a sequence of UTF-16 code units. String literals of the source are
  all ASCII; \<open>js ''abc''\<close> is the code-unit sequence of such a literal. The relational
  operators on strings compare code units lexicographically, which is the order of
  \<^theory_text>\<open>HOL-Library.List_Lexorder\<close> on \<open>16 word list\<close>.
\<close>

type_synonym jsstring = "16 word list"

definition js :: "string \<Rightarrow> jsstring" where
  "js s = map of_char s"

text \<open>
  The characters matched by \<open>\s\<close> in a regular expression and removed by
  \<open>String.prototype.trim\<close>: the WhiteSpace and LineTerminator code points of ECMAScript.
\<close>

definition is_space :: "16 word \<Rightarrow> bool" where
  "is_space c \<longleftrightarrow>
     (9 \<le> c \<and> c \<le> 13) \<or> c = 32 \<or> c = 160 \<or> c = 0x1680 \<or>
     (0x2000 \<le> c \<and> c \<le> 0x200A) \<or> c = 0x2028 \<or> c = 0x2029 \<or>
     c = 0x202F \<or> c = 0x205F \<or> c = 0x3000 \<or> c = 0xFEFF"

definition is_digit :: "16 word \<Rightarrow> bool" where
  "is_digit c \<longleftrightarrow> 48 \<le> c \<and> c \<le> 57"

definition is_upper :: "16 word \<Rightarrow> bool" where
  "is_upper c \<longleftrightarrow> 65 \<le> c \<and> c \<le> 90"

definition is_lower :: "16 word \<Rightarrow> bool" where
  "is_lower c \<longleftrightarrow> 97 \<le> c \<and> c \<le> 122"

definition is_alpha :: "16 word \<Rightarrow> bool" where
  "is_alpha c \<longleftrightarrow> is_upper c \<or> is_lower c"

definition is_ascii :: "16 word \<Rightarrow> bool" where
  "is_ascii c \<longleftrightarrow> c < 128"

definition lower_ascii :: "16 word \<Rightarrow> 16 word" where
  "lower_ascii c = (if is_upper c then c + 32 else c)"

text \<open>
  \<open>s.replace(/[C]+/g, r)\<close>: every maximal run of characters of the class \<open>C\<close> is replaced
  by \<open>r\<close>. \<open>s.replace(/[C]/g, r)\<close>: every character of the class is replaced by \<open>r\<close>.
  \<open>s.replace(/^[C]+|[C]+$/g, "")\<close>: the leading and the trailing run are removed.
\<close>

function replace_runs :: "(16 word \<Rightarrow> bool) \<Rightarrow> jsstring \<Rightarrow> jsstring \<Rightarrow> jsstring" where
  "replace_runs P r [] = []"
| "replace_runs P r (c # cs) =
     (if P c then r @ replace_runs P r (dropWhile P cs) else c # replace_runs P r cs)"
  by pat_completeness auto
termination
  by (relation "measure (\<lambda>(P, r, s). length s)")
     (auto simp: length_dropWhile_le less_Suc_eq_le)

definition replace_each :: "(16 word \<Rightarrow> bool) \<Rightarrow> jsstring \<Rightarrow> jsstring \<Rightarrow> jsstring" where
  "replace_each P r s = concat (map (\<lambda>c. if P c then r else [c]) s)"

definition strip_ends :: "(16 word \<Rightarrow> bool) \<Rightarrow> jsstring \<Rightarrow> jsstring" where
  "strip_ends P s = rev (dropWhile P (rev (dropWhile P s)))"

definition trim :: "jsstring \<Rightarrow> jsstring" where
  "trim s = strip_ends is_space s"

text \<open>\<open>String(n)\<close> for a non-negative integer, and \<open>s.padStart(2, "0")\<close>.\<close>

fun dec :: "nat \<Rightarrow> jsstring" where
  "dec n = (if n < 10 then [of_nat (48 + n)] else dec (n div 10) @ [of_nat (48 + n mod 10)])"

declare dec.simps [simp del]

definition padStart2 :: "jsstring \<Rightarrow> jsstring" where
  "padStart2 s = replicate (2 - length s) 48 @ s"

text \<open>\<open>parseInt(s, 10)\<close> on a string of decimal digits.\<close>

definition parseInt :: "jsstring \<Rightarrow> nat" where
  "parseInt s = foldl (\<lambda>n c. 10 * n + (unat c - 48)) 0 s"

section \<open>Property lookup on object literals\<close>

text \<open>
  \<open>MONTHS\<close> and \<open>TEAM_ALIASES\<close> are object literals, and \<open>obj[key]\<close> on an object literal
  finds the object's own properties and then the properties it inherits from
  \<open>Object.prototype\<close>. An inherited property is a built-in function (or, for \<open>__proto__\<close>,
  the prototype object); its value is kept as the text \<open>String(value)\<close> gives in Node.
\<close>

datatype 'a lookup = Own 'a | Inherited jsstring | Undefined

definition native_fn :: "string \<Rightarrow> jsstring" where
  "native_fn name = js ''function '' @ js name @ js ''() { [native code] }''"

definition Object_prototype :: "(jsstring \<times> jsstring) list" where
  "Object_prototype =
    [(js ''constructor'', native_fn ''Object''),
     (js ''__defineGetter__'', native_fn ''__defineGetter__''),
     (js ''__defineSetter__'', native_fn ''__defineSetter__''),
     (js ''hasOwnProperty'', native_fn ''hasOwnProperty''),
     (js ''__lookupGetter__'', native_fn ''__lookupGetter__''),
     (js ''__lookupSetter__'', native_fn ''__lookupSetter__''),
     (js ''isPrototypeOf'', native_fn ''isPrototypeOf''),
     (js ''propertyIsEnumerable'', native_fn ''propertyIsEnumerable''),
     (js ''toString'', native_fn ''toString''),
     (js ''valueOf'', native_fn ''valueOf''),
     (js ''__proto__'', js ''[object Object]''),
     (js ''toLocaleString'', native_fn ''toLocaleString'')]"

definition obj_get :: "(jsstring \<times> 'a) list \<Rightarrow> jsstring \<Rightarrow> 'a lookup" where
  "obj_get own k =
     (case map_of own k of
        Some v \<Rightarrow> Own v
      | None \<Rightarrow> (case map_of Object_prototype k of Some f \<Rightarrow> Inherited f | None \<Rightarrow> Undefined))"

section \<open>Text normalizer: the date pattern\<close>

text \<open>
  \<open>/([A-Za-z]+)\s+(\d{1,2}),\s+(\d{4})/.exec(txt)\<close>. At one start position the pattern is a
  sequence of components over pairwise disjoint character classes (letters, white space,
  digits, the comma, white space, digits), so backtracking into a shorter repetition always
  leaves a character of the wrong class next, and the match at a position is the greedy one:
  the whole run of letters, the whole run of white space, a run of one or two digits (a run of
  three or more digits fails, for the comma must follow), the comma, the whole run of white
  space, and four digits. \<open>exec\<close> returns the match at the leftmost position that has one.
\<close>

definition date_match_at :: "jsstring \<Rightarrow> (jsstring \<times> jsstring \<times> jsstring) option" where
  "date_match_at s =
     (let m1 = takeWhile is_alpha s; r1 = dropWhile is_alpha s;
          r2 = dropWhile is_space r1;
          m2 = takeWhile is_digit r2; r3 = dropWhile is_digit r2;
          r4 = dropWhile is_space (tl r3);
          m3 = take 4 r4
      in if m1 \<noteq> [] \<and> takeWhile is_space r1 \<noteq> [] \<and>
            (length m2 = 1 \<or> length m2 = 2) \<and>
            r3 \<noteq> [] \<and> hd r3 = 44 \<and> takeWhile is_space (tl r3) \<noteq> [] \<and>
            length m3 = 4 \<and> list_all is_digit m3
         then Some (m1, m2, m3) else None)"

fun date_exec :: "jsstring \<Rightarrow> (jsstring \<times> jsstring \<times> jsstring) option" where
  "date_exec [] = date_match_at []"
| "date_exec (c # cs) =
     (case date_match_at (c # cs) of Some m \<Rightarrow> Some m | None \<Rightarrow> date_exec cs)"

definition MONTHS :: "(jsstring \<times> nat) list" where
  "MONTHS =
    [(js ''january'', 1), (js ''february'', 2), (js ''march'', 3), (js ''april'', 4),
     (js ''may'', 5), (js ''june'', 6), (js ''july'', 7), (js ''august'', 8),
     (js ''september'', 9), (js ''october'', 10), (js ''november'', 11), (js ''december'', 12)]"

text \<open>
  \<open>extractISODate\<close>. The first group holds ASCII letters only, on which \<open>toLowerCase\<close> is
  \<open>lower_ascii\<close> on every unit. \<open>!mm\<close> holds of \<open>undefined\<close> and of the number 0; an inherited
  property is truthy, and \<open>String(mm)\<close> is then its text.
\<close>

definition extractISODate :: "jsstring \<Rightarrow> jsstring" where
  "extractISODate txt =
     (case date_exec txt of
        None \<Rightarrow> []
      | Some (m1, m2, m3) \<Rightarrow>
          (case obj_get MONTHS (map lower_ascii m1) of
             Undefined \<Rightarrow> []
           | Own mm \<Rightarrow>
               if mm = 0 then []
               else m3 @ js ''-'' @ padStart2 (dec mm) @ js ''-'' @ padStart2 (dec (parseInt m2))
           | Inherited f \<Rightarrow>
               m3 @ js ''-'' @ padStart2 f @ js ''-'' @ padStart2 (dec (parseInt m2))))"

section \<open>The host: network, document parser and built-ins\<close>

text \<open>
  An exception is a value. \<open>message\<close> is \<open>e.message\<close>.
\<close>

datatype error = Error jsstring | TypeError jsstring | URIError jsstring

fun message :: "error \<Rightarrow> jsstring" where
  "message (Error m) = m"
| "message (TypeError m) = m"
| "message (URIError m) = m"

text \<open>
  A parsed document is a tree of nodes. An element carries \<open>el.tagName.toLowerCase()\<close>,
  its attributes in order (names are unique) and its children.
\<close>

datatype node = Text jsstring | Comment jsstring | Elem jsstring "(jsstring \<times> jsstring) list" "node list"

text \<open>
  \<open>await fetch(url, REQ)\<close> rejects or resolves to a response with a status and a body
  (\<open>res.text()\<close>).
\<close>

datatype fetch_result = Rejected error | Response nat jsstring

text \<open>
  The regular expressions the source applies through the engine:
  \<open>Via\<close> is \<open>/via\s+([A-Z][A-Za-z0-9 .'-]+)/i\<close>,
  \<open>Dash\<close> is \<open>/[-\<endash>]\s*([A-Z][A-Za-z0-9 .'-]+)$/\<close>,
  \<open>DashI\<close> is \<open>/[-\<endash>]\s*([A-Z][A-Za-z0-9 .'-]+)\s*$/i\<close>,
  \<open>AnchorEnd\<close> is \<open>/<a[^>]*href="([^"]+)"[^>]*>([^<]+)<\/a>\s*$/i\<close>, and
  \<open>RegExp src flags\<close> is \<open>new RegExp(src, flags)\<close>.
\<close>

datatype regexp = Via | Dash | DashI | AnchorEnd | RegExp jsstring jsstring

text \<open>
  Everything outside the repository is a field of the world: the network, the jsdom parser
  and its selector engine (for every selector other than \<open>*\<close> and a single tag name, which
  are defined on the tree below), DOM serialization, the Unicode tables (used only on strings
  that hold a non-ASCII unit), \<open>Date\<close>, and the regular-expression engine (\<open>exec\<close> gives the
  captured groups of the leftmost match). A fetch of the same URL gives the same result
  during one invocation.
\<close>

record world =
  fetch :: "jsstring \<Rightarrow> fetch_result"
  jsdom_html :: "jsstring \<Rightarrow> node"
  jsdom_xml :: "jsstring \<Rightarrow> error + node"
  select :: "jsstring \<Rightarrow> node \<Rightarrow> node list"
  innerHTML :: "node list \<Rightarrow> jsstring"
  href_prop :: "node \<Rightarrow> jsstring"
  toLowerCase_unicode :: "jsstring \<Rightarrow> jsstring"
  normalize_NFD_unicode :: "jsstring \<Rightarrow> jsstring"
  encodeURIComponent_other :: "jsstring \<Rightarrow> error + jsstring"
  Date_parse :: "jsstring \<Rightarrow> int option"
  toISOString :: "int \<Rightarrow> jsstring"
  regexp_exec :: "regexp \<Rightarrow> jsstring \<Rightarrow> jsstring list option"

text \<open>
  \<open>s.toLowerCase()\<close> and \<open>s.normalize("NFD")\<close>: on a string of ASCII units the first maps
  \<open>A\<close>..\<open>Z\<close> to \<open>a\<close>..\<open>z\<close> and the second changes nothing.
\<close>

definition toLowerCase :: "world \<Rightarrow> jsstring \<Rightarrow> jsstring" where
  "toLowerCase w s = (if list_all is_ascii s then map lower_ascii s else toLowerCase_unicode w s)"

definition normalize_NFD :: "world \<Rightarrow> jsstring \<Rightarrow> jsstring" where
  "normalize_NFD w s = (if list_all is_ascii s then s else normalize_NFD_unicode w s)"

section \<open>Text normalizer: clean and slugify\<close>

definition clean :: "jsstring \<Rightarrow> jsstring" where
  "clean s = trim (replace_runs is_space (js '' '') s)"

definition is_combining :: "16 word \<Rightarrow> bool" where
  "is_combining c \<longleftrightarrow> 0x300 \<le> c \<and> c \<le> 0x36F"

definition is_slug_alnum :: "16 word \<Rightarrow> bool" where
  "is_slug_alnum c \<longleftrightarrow> is_lower c \<or> is_digit c"

definition slugify :: "world \<Rightarrow> jsstring \<Rightarrow> jsstring" where
  "slugify w q =
     strip_ends (\<lambda>c. c = 95)
       (replace_runs (\<lambda>c. \<not> is_slug_alnum c) (js ''_'')
          (replace_each (\<lambda>c. c = 38) (js '' and '')
             (toLowerCase w
                (replace_each is_combining []
                   (normalize_NFD w (clean q))))))"

text \<open>A list in which no two neighbours both satisfy \<open>P\<close>.\<close>

fun no_adjacent :: "('a \<Rightarrow> bool) \<Rightarrow> 'a list \<Rightarrow> bool" where
  "no_adjacent P [] = True"
| "no_adjacent P [c] = True"
| "no_adjacent P (c # d # cs) = (\<not> (P c \<and> P d) \<and> no_adjacent P (d # cs))"

section \<open>Rumor items; merge, dedup, rank and window\<close>

text \<open>
  The fields every variant's item has, those of the link-preserving variants
  (\<open>snippet_html\<close>, \<open>sourceName\<close>, \<open>lastAnchorText\<close>) and those of the plain-text variants
  (\<open>source\<close>, \<open>snippet\<close>).
\<close>

record base_item =
  title :: jsstring
  url :: jsstring
  date :: jsstring

record item = base_item +
  snippet_html :: jsstring
  sourceName :: jsstring
  lastAnchorText :: jsstring

record rumor = base_item +
  source :: jsstring
  snippet :: jsstring

text \<open>
  The comparator \<open>(a,b) => (b.date||"") > (a.date||"") ? 1 : -1\<close>. Every item's \<open>date\<close> is a
  string, on which \<open>x || ""\<close> is \<open>x\<close>.
\<close>

definition by_date_desc :: "'a base_item_scheme \<Rightarrow> 'a base_item_scheme \<Rightarrow> int" where
  "by_date_desc a b = (if date b > date a then 1 else - 1)"

text \<open>
  \<open>Array.prototype.sort(cmp)\<close>. The engine's algorithm is not part of the repository; it is
  taken to be insertion sort driven by the sign of the comparator, each element being put
  before the first element it compares below. The comparator above never answers 0, so
  what the results below say of the order of dates holds for that algorithm, and nothing is
  proved of how items of equal date are arranged.
\<close>

fun insert_by :: "('a \<Rightarrow> 'a \<Rightarrow> int) \<Rightarrow> 'a \<Rightarrow> 'a list \<Rightarrow> 'a list" where
  "insert_by cmp x [] = [x]"
| "insert_by cmp x (y # ys) = (if cmp x y < 0 then x # y # ys else y # insert_by cmp x ys)"

definition array_sort :: "('a \<Rightarrow> 'a \<Rightarrow> int) \<Rightarrow> 'a list \<Rightarrow> 'a list" where
  "array_sort cmp xs = foldl (\<lambda>acc x. insert_by cmp x acc) [] xs"

text \<open>
  The key \<open>`${it.date}::${it.title.slice(0,n)}::${it.url}`\<close> (\<open>n\<close> is 120 in the handler and
  in \<open>collectFromOneTag\<close>, 80 in \<open>collectFromTag\<close>), and the loop
  \<open>for (const it of merged) { if (seen.has(key)) continue; seen.add(key); dedup.push(it); }\<close>.
\<close>

definition key_of :: "nat \<Rightarrow> 'a base_item_scheme \<Rightarrow> jsstring" where
  "key_of n it = date it @ js ''::'' @ take n (title it) @ js ''::'' @ url it"

fun dedup_loop ::
  "nat \<Rightarrow> 'a base_item_scheme list \<Rightarrow> 'a base_item_scheme list \<Rightarrow> jsstring set \<Rightarrow>
   'a base_item_scheme list \<times> jsstring set" where
  "dedup_loop n [] out seen = (out, seen)"
| "dedup_loop n (it # its) out seen =
     (if key_of n it \<in> seen then dedup_loop n its out seen
      else dedup_loop n its (out @ [it]) (insert (key_of n it) seen))"

text \<open>
  The handler's rank and dedup step: \<open>merged.sort(...)\<close>, then the loop from an empty
  \<open>dedup\<close> and an empty \<open>seen\<close>.
\<close>

definition rank_dedup :: "'a base_item_scheme list \<Rightarrow> 'a base_item_scheme list" where
  "rank_dedup merged = fst (dedup_loop 120 (array_sort by_date_desc merged) [] {})"

text \<open>\<open>xs.slice(b, e)\<close> for literal bounds \<open>0 \<le> b \<le> e\<close>.\<close>

definition slice :: "nat \<Rightarrow> nat \<Rightarrow> 'a list \<Rightarrow> 'a list" where
  "slice b e xs = take (e - b) (drop b xs)"

text \<open>
  The composite key read as a triple, against which the key string is compared.
\<close>

definition key_triple :: "'a base_item_scheme \<Rightarrow> jsstring \<times> jsstring \<times> jsstring" where
  "key_triple it = (date it, take 120 (title it), url it)"

text \<open>
  Items for the concrete checks below: two paragraphs under the heading of one day. The first
  is the paragraph \<open>Lakers eye a trade::x <a href="y">ESPN</a>\<close>, the second is
  \<open>Lakers eye a trade<a href="x ESPN::y"></a>\<close>; their titles and links differ and their
  key strings are equal. \<open>sample_item k\<close> is an item of the day \<open>2025-10-k\<close>.
\<close>

definition colliding_a :: item where
  "colliding_a =
     \<lparr>title = js ''Lakers eye a trade::x ESPN'', url = js ''y'', date = js ''2025-10-15'',
      snippet_html = js ''Lakers eye a trade::x <a href=\"y\" target=\"_blank\">ESPN</a>'',
      sourceName = js ''ESPN'', lastAnchorText = js ''ESPN''\<rparr>"

definition colliding_b :: item where
  "colliding_b =
     \<lparr>title = js ''Lakers eye a trade'', url = js ''x ESPN::y'', date = js ''2025-10-15'',
      snippet_html = js ''Lakers eye a trade<a href=\"x ESPN::y\" target=\"_blank\"></a>'',
      sourceName = js ''HoopsHype'', lastAnchorText = []\<rparr>"

definition sample_item :: "nat \<Rightarrow> item" where
  "sample_item k =
     \<lparr>title = js ''Rumor number '' @ dec k, url = js ''https://hoopshype.com/r/'' @ dec k,
      date = js ''2025-10-'' @ padStart2 (dec k),
      snippet_html = js ''Rumor number '' @ dec k, sourceName = js ''HoopsHype'',
      lastAnchorText = []\<rparr>"

section \<open>Document extractor: the tree and the markup-preserving snippet\<close>

text \<open>
  \<open>el.textContent\<close> (the text of the text-node descendants, in tree order),
  \<open>el.getAttribute(name)\<close>, the children of a node, and the descendant elements of a node
  in tree order, which is what \<open>node.querySelectorAll("*")\<close> lists;
  \<open>node.querySelectorAll(tag)\<close> keeps those of one tag name.
\<close>

fun textContent :: "node \<Rightarrow> jsstring" where
  "textContent (Text s) = s"
| "textContent (Comment s) = []"
| "textContent (Elem t a ks) = concat (map textContent ks)"

fun tagName :: "node \<Rightarrow> jsstring" where
  "tagName (Elem t a ks) = t"
| "tagName n = []"

fun attributes :: "node \<Rightarrow> (jsstring \<times> jsstring) list" where
  "attributes (Elem t a ks) = a"
| "attributes n = []"

fun children :: "node \<Rightarrow> node list" where
  "children (Elem t a ks) = ks"
| "children n = []"

fun is_element :: "node \<Rightarrow> bool" where
  "is_element (Elem t a ks) = True"
| "is_element n = False"

definition getAttribute :: "node \<Rightarrow> jsstring \<Rightarrow> jsstring option" where
  "getAttribute el name = map_of (attributes el) name"

fun descendants :: "node \<Rightarrow> node list" where
  "descendants (Elem t a ks) = concat (map (\<lambda>k. if is_element k then k # descendants k else []) ks)"
| "descendants n = []"

definition by_tag :: "jsstring \<Rightarrow> node \<Rightarrow> node list" where
  "by_tag t n = filter (\<lambda>e. tagName e = t) (descendants n)"

text \<open>
  \<open>paragraphHTML\<close> walks the static list \<open>clone.querySelectorAll("*")\<close> and changes the clone
  in place. An element of the list is found again in the clone by its path, the child
  indices from the clone downwards: an attribute change moves no node, and \<open>replaceWith\<close>
  puts one text node in the place of one element, so the indices of the nodes that are
  still in the clone never change. An element whose ancestor has been replaced by a text
  node is no longer in the clone (its path ends in that text node); the loop still visits
  it, and what it does to it changes nothing in the clone.
\<close>

fun child_paths :: "nat \<Rightarrow> node list \<Rightarrow> nat list list" where
  "child_paths i [] = []"
| "child_paths i (Elem t a cs # ks) =
     ([i] # map ((#) i) (child_paths 0 cs)) @ child_paths (Suc i) ks"
| "child_paths i (Text s # ks) = child_paths (Suc i) ks"
| "child_paths i (Comment s # ks) = child_paths (Suc i) ks"

fun update_at :: "(node \<Rightarrow> node) \<Rightarrow> nat list \<Rightarrow> node list \<Rightarrow> node list" where
  "update_at f [] ks = ks"
| "update_at f [i] ks = (if i < length ks then ks[i := f (ks ! i)] else ks)"
| "update_at f (i # j # p) ks =
     (if i < length ks
      then (case ks ! i of
              Elem t a cs \<Rightarrow> ks[i := Elem t a (update_at f (j # p) cs)]
            | _ \<Rightarrow> ks)
      else ks)"

text \<open>
  The attribute operations of the loop body on an anchor:
  \<open>el.getAttributeNames().forEach(n => { if (n !== "href") el.removeAttribute(n); })\<close>,
  \<open>if (href) el.setAttribute("target","_blank")\<close> (a non-empty \<open>href\<close> is truthy) and
  \<open>el.removeAttribute("rel")\<close>.
\<close>

definition removeAttribute :: "jsstring \<Rightarrow> (jsstring \<times> jsstring) list \<Rightarrow> (jsstring \<times> jsstring) list" where
  "removeAttribute n a = filter (\<lambda>(k, v). k \<noteq> n) a"

definition setAttribute ::
  "jsstring \<Rightarrow> jsstring \<Rightarrow> (jsstring \<times> jsstring) list \<Rightarrow> (jsstring \<times> jsstring) list" where
  "setAttribute n v a =
     (if n \<in> fst ` set a then map (\<lambda>(k, x). if k = n then (k, v) else (k, x)) a
      else a @ [(n, v)])"

definition anchor_attributes :: "(jsstring \<times> jsstring) list \<Rightarrow> (jsstring \<times> jsstring) list" where
  "anchor_attributes a =
     (let href = map_of a (js ''href'');
          a1 = foldl (\<lambda>b n. if n \<noteq> js ''href'' then removeAttribute n b else b) a (map fst a);
          a2 = (if href \<noteq> None \<and> href \<noteq> Some [] then setAttribute (js ''target'') (js ''_blank'') a1
                else a1)
      in removeAttribute (js ''rel'') a2)"

fun sanitize_element :: "node \<Rightarrow> node" where
  "sanitize_element (Elem t a cs) =
     (if t = js ''a'' then Elem t (anchor_attributes a) cs
      else Text (textContent (Elem t a cs)))"
| "sanitize_element n = n"

definition sanitized_children :: "node \<Rightarrow> node list" where
  "sanitized_children p =
     foldl (\<lambda>forest path. update_at sanitize_element path forest) (children p)
       (child_paths 0 (children p))"

definition paragraphHTML :: "world \<Rightarrow> node \<Rightarrow> jsstring" where
  "paragraphHTML w p =
     trim (replace_runs is_space (js '' '') (innerHTML w (sanitized_children p)))"

text \<open>
  What the loop amounts to, as a function of the tree: a non-anchor element becomes the
  text node of its text content, an anchor keeps its children, treated the same way, and
  the attributes \<open>anchor_attributes\<close> leaves it.
\<close>

fun unwrapped :: "node \<Rightarrow> node" where
  "unwrapped (Elem t a cs) =
     (if t = js ''a'' then Elem t (anchor_attributes a) (map unwrapped cs)
      else Text (textContent (Elem t a cs)))"
| "unwrapped n = n"

text \<open>
  The two shapes of a sanitized tree. \<open>href_only\<close>: every element is an anchor whose only
  attribute, if it has one, is \<open>href\<close>. \<open>href_target_only\<close>: every element is an anchor whose
  attributes are among \<open>href\<close> and \<open>target\<close>, the latter being \<open>_blank\<close> and present exactly
  when \<open>href\<close> is present and not empty.
\<close>

fun href_only :: "node \<Rightarrow> bool" where
  "href_only (Elem t a cs) =
     (t = js ''a'' \<and> list_all (\<lambda>(k, v). k = js ''href'') a \<and> list_all href_only cs)"
| "href_only n = True"

fun href_target_only :: "node \<Rightarrow> bool" where
  "href_target_only (Elem t a cs) =
     (t = js ''a'' \<and>
      list_all (\<lambda>(k, v). k = js ''href'' \<or> (k = js ''target'' \<and> v = js ''_blank'')) a \<and>
      ((js ''target'' \<in> fst ` set a) =
         (map_of a (js ''href'') \<noteq> None \<and> map_of a (js ''href'') \<noteq> Some [])) \<and>
      list_all href_target_only cs)"
| "href_target_only n = True"

text \<open>The paragraph \<open><p>See <b>the <a href="u" class="k">report</a></b> of
  <a href="v" class="k" rel="nofollow"><i>ESPN</i></a><!--x--></p>\<close>.\<close>

definition sample_paragraph :: node where
  "sample_paragraph =
     Elem (js ''p'') []
       [Text (js ''See ''),
        Elem (js ''b'') [] [Text (js ''the ''),
          Elem (js ''a'') [(js ''href'', js ''u''), (js ''class'', js ''k'')] [Text (js ''report'')]],
        Text (js '' of ''),
        Elem (js ''a'') [(js ''href'', js ''v''), (js ''class'', js ''k''), (js ''rel'', js ''nofollow'')]
          [Elem (js ''i'') [] [Text (js ''ESPN'')]],
        Comment (js ''x'')]"

section \<open>Subject matcher builder\<close>

definition TEAM_ALIASES :: "(jsstring \<times> jsstring list) list" where
  "TEAM_ALIASES =
    [(js ''lakers'', [js ''los angeles lakers'', js ''lal'', js ''lakers'']),
     (js ''clippers'', [js ''los angeles clippers'', js ''lac'', js ''clippers'']),
     (js ''knicks'', [js ''new york knicks'', js ''nyk'', js ''knicks'']),
     (js ''nets'', [js ''brooklyn nets'', js ''bkn'', js ''nets'']),
     (js ''heat'', [js ''miami heat'', js ''mia'', js ''heat'']),
     (js ''bucks'', [js ''milwaukee bucks'', js ''mil'', js ''bucks'']),
     (js ''celtics'', [js ''boston celtics'', js ''bos'', js ''celtics'']),
     (js ''sixers'', [js ''philadelphia 76ers'', js ''phi'', js ''76ers'', js ''sixers'']),
     (js ''mavs'', [js ''dallas mavericks'', js ''dal'', js ''mavericks'', js ''mavs'']),
     (js ''suns'', [js ''phoenix suns'', js ''phx'', js ''suns'']),
     (js ''warriors'', [js ''golden state warriors'', js ''gsw'', js ''warriors'']),
     (js ''thunder'', [js ''oklahoma city thunder'', js ''okc'', js ''thunder''])]"

text \<open>
  \<open>escapeRegExp\<close> puts a backslash (unit 92) before each of \<open>. * + ? ^ $ { } ( ) | [ ] \\<close>.
  \<open>s.split(/\s+/)\<close> cuts \<open>s\<close> at every maximal run of white space; \<open>parts.join("|")\<close>.
\<close>

definition escapeRegExp :: "jsstring \<Rightarrow> jsstring" where
  "escapeRegExp s =
     concat (map (\<lambda>c. if c \<in> set [46, 42, 43, 63, 94, 36, 123, 125, 40, 41, 124, 91, 93, 92]
                        then [92, c] else [c]) s)"

function split_ws :: "jsstring \<Rightarrow> jsstring list" where
  "split_ws s =
     (let piece = takeWhile (\<lambda>c. \<not> is_space c) s; rest = dropWhile (\<lambda>c. \<not> is_space c) s
      in if rest = [] then [piece] else piece # split_ws (dropWhile is_space rest))"
  by pat_completeness auto
termination
proof (relation "measure length")
  fix s piece rest
  assume r: "rest = dropWhile (\<lambda>c. \<not> is_space c) s" and n: "rest \<noteq> []"
  have "is_space (hd rest)" using r n hd_dropWhile[of "\<lambda>c. \<not> is_space c" s] by auto
  then have "length (dropWhile is_space rest) < length rest"
    using n by (cases rest) (auto simp: length_dropWhile_le less_Suc_eq_le)
  moreover have "length rest \<le> length s" using r by (simp add: length_dropWhile_le)
  ultimately show "(dropWhile is_space rest, s) \<in> measure length" by simp
qed simp

declare split_ws.simps [simp del]

fun join :: "jsstring \<Rightarrow> jsstring list \<Rightarrow> jsstring" where
  "join sep [] = []"
| "join sep [x] = x"
| "join sep (x # y # ys) = x @ sep @ join sep (y # ys)"

text \<open>
  \<open>matchMode\<close> (named \<open>buildMatcher\<close> in the four-strategy variant; the code is the same). The
  matcher it returns is a function of the text that returns a boolean or throws:
  \<open>TEAM_ALIASES[key] || [s]\<close> is the alias list of an own key, \<open>[s]\<close> for a key the object does
  not have, and the inherited function for a key found on \<open>Object.prototype\<close>, on which
  \<open>aliases.some\<close> is not a function. \<open>t.includes(a)\<close> is \<open>sublist a t\<close>.
\<close>

definition matchMode :: "world \<Rightarrow> jsstring \<Rightarrow> jsstring \<Rightarrow> jsstring \<Rightarrow> error + bool" where
  "matchMode w subject mode =
     (let s = trim (toLowerCase w subject) in
      if mode = js ''team'' then
        (let key = filter is_lower s in
         case obj_get TEAM_ALIASES key of
           Own aliases \<Rightarrow> (\<lambda>txt. Inr (list_ex (\<lambda>a. sublist a (toLowerCase w txt)) aliases))
         | Inherited f \<Rightarrow> (\<lambda>txt. Inl (TypeError (js ''aliases.some is not a function'')))
         | Undefined \<Rightarrow> (\<lambda>txt. Inr (list_ex (\<lambda>a. sublist a (toLowerCase w txt)) [s])))
      else if mode = js ''player'' then
        (let parts = split_ws s;
             re = RegExp ([92] @ js ''b('' @ join (js ''|'') (map escapeRegExp parts) @ js ''|'' @
                          escapeRegExp (last parts) @ js '')'' @ [92] @ js ''b'') (js ''i'')
         in (\<lambda>txt. Inr (regexp_exec w re txt \<noteq> None)))
      else (\<lambda>txt. Inr (sublist s (toLowerCase w txt))))"

text \<open>The literal matcher the fallback is compared with: substring containment, ignoring
  case, of the lower-cased and trimmed subject.\<close>

definition contains_subject :: "world \<Rightarrow> jsstring \<Rightarrow> jsstring \<Rightarrow> bool" where
  "contains_subject w subject txt = sublist (trim (toLowerCase w subject)) (toLowerCase w txt)"

section \<open>Requests, responses and the debug trace\<close>

text \<open>
  \<open>event.queryStringParameters\<close>: the parameters the handlers read, each absent or a string.
  The response is \<open>json(code, body)\<close>; its headers are the same in every response, and the body is
  kept as the object given to \<open>JSON.stringify\<close>: \<open>{ error, debug? }\<close> or
  \<open>{ subject, items, debug? }\<close>. The debug trace \<open>dbg\<close> is an object of counters, strings and
  lists of strings.
\<close>

record event =
  q :: "jsstring option"
  mode :: "jsstring option"
  debug :: "jsstring option"

datatype dbgval = Num nat | Str jsstring | Strs "jsstring list"

type_synonym dbg = "jsstring \<Rightarrow> dbgval option"

datatype 'i body = ErrorBody jsstring "dbg option" | ItemsBody jsstring "'i list" "dbg option"

record 'i response =
  statusCode :: nat
  body :: "'i body"

definition json :: "nat \<Rightarrow> 'i body \<Rightarrow> 'i response" where
  "json code b = \<lparr>statusCode = code, body = b\<rparr>"

fun items_of :: "'i body \<Rightarrow> 'i list option" where
  "items_of (ItemsBody subject items d) = Some items"
| "items_of (ErrorBody m d) = None"

fun error_of :: "'i body \<Rightarrow> jsstring option" where
  "error_of (ItemsBody subject items d) = None"
| "error_of (ErrorBody m d) = Some m"

fun debug_of :: "'i body \<Rightarrow> dbg option" where
  "debug_of (ItemsBody subject items d) = d"
| "debug_of (ErrorBody m d) = d"

fun without_debug :: "'i body \<Rightarrow> 'i body" where
  "without_debug (ItemsBody subject items d) = ItemsBody subject items None"
| "without_debug (ErrorBody m d) = ErrorBody m d"

text \<open>
  \<open>(event.queryStringParameters?.q || "").trim()\<close>, \<open>debug === "1"\<close>, \<open>e.message || "Unknown error"\<close>,
  \<open>String(e.message || e)\<close> (an error without a message prints as its name), and
  \<open>dbg.k = (dbg.k || 0) + n\<close> on a counter.
\<close>

definition param_trim :: "jsstring option \<Rightarrow> jsstring" where
  "param_trim p = trim (case p of None \<Rightarrow> [] | Some s \<Rightarrow> s)"

definition debug_flag :: "event \<Rightarrow> bool" where
  "debug_flag ev \<longleftrightarrow> debug ev = Some (js ''1'')"

definition message_or_unknown :: "error \<Rightarrow> jsstring" where
  "message_or_unknown e = (if message e = [] then js ''Unknown error'' else message e)"

fun error_name :: "error \<Rightarrow> jsstring" where
  "error_name (Error m) = js ''Error''"
| "error_name (TypeError m) = js ''TypeError''"
| "error_name (URIError m) = js ''URIError''"

definition error_text :: "error \<Rightarrow> jsstring" where
  "error_text e = (if message e = [] then error_name e else message e)"

definition add_count :: "dbg \<Rightarrow> jsstring \<Rightarrow> nat \<Rightarrow> dbg" where
  "add_count d k n = d(k \<mapsto> Num ((case d k of Some (Num m) \<Rightarrow> m | _ \<Rightarrow> 0) + n))"

section \<open>The network\<close>

text \<open>
  \<open>res.ok\<close>, and \<open>fetchText\<close> of the tag-crawl variants. A function that may fetch returns,
  beside its result, the URLs it has asked the network for, in order.
  \<open>encodeURIComponent\<close> changes nothing in a string of unreserved characters; on any other
  string it is the host's, and may throw.
\<close>

definition ok :: "nat \<Rightarrow> bool" where
  "ok status \<longleftrightarrow> 200 \<le> status \<and> status \<le> 299"

definition fetchText :: "world \<Rightarrow> jsstring \<Rightarrow> (error + jsstring) \<times> jsstring list" where
  "fetchText w u =
     (case fetch w u of
        Rejected e \<Rightarrow> (Inl e, [u])
      | Response status text \<Rightarrow>
          if ok status then (Inr text, [u])
          else (Inl (Error (js ''HTTP '' @ dec status @ js '' for '' @ u)), [u]))"

definition uri_unreserved :: "16 word \<Rightarrow> bool" where
  "uri_unreserved c \<longleftrightarrow>
     is_alpha c \<or> is_digit c \<or> c \<in> set [45, 95, 46, 33, 126, 42, 39, 40, 41]"

definition encodeURIComponent :: "world \<Rightarrow> jsstring \<Rightarrow> error + jsstring" where
  "encodeURIComponent w s =
     (if list_all uri_unreserved s then Inr s else encodeURIComponent_other w s)"

definition PREVIEW_ORIGIN :: jsstring where
  "PREVIEW_ORIGIN = js ''http://preview.hoopshype.com''"

definition tag_page_url :: "world \<Rightarrow> jsstring \<Rightarrow> nat \<Rightarrow> error + jsstring" where
  "tag_page_url w slug page =
     (case encodeURIComponent w slug of
        Inl e \<Rightarrow> Inl e
      | Inr enc \<Rightarrow>
          Inr (PREVIEW_ORIGIN @ js ''/rumors/tag/'' @ enc @ js ''/'' @
               (if page > 1 then js ''page/'' @ dec page @ js ''/'' else [])))"

section \<open>Date-sectioned block extraction\<close>

text \<open>
  A document is the node whose children are the document's children. \<open>querySelectorAll\<close> on
  an HTML document is defined on the tree for \<open>*\<close> and for a lower-case tag name, and is the
  selector engine's for every other selector; \<open>querySelector\<close> is its first result.
  \<open>doc.body\<close> is the first \<open>body\<close> element.
\<close>

definition querySelectorAll :: "world \<Rightarrow> jsstring \<Rightarrow> node \<Rightarrow> node list" where
  "querySelectorAll w sel n =
     (if sel = js ''*'' then descendants n
      else if sel \<noteq> [] \<and> list_all is_lower sel then by_tag sel n
      else select w sel n)"

definition querySelector :: "world \<Rightarrow> jsstring \<Rightarrow> node \<Rightarrow> node option" where
  "querySelector w sel n = (case querySelectorAll w sel n of [] \<Rightarrow> None | e # es \<Rightarrow> Some e)"

fun first_some :: "'a option list \<Rightarrow> 'a option" where
  "first_some [] = None"
| "first_some (Some x # xs) = Some x"
| "first_some (None # xs) = first_some xs"

definition container :: "world \<Rightarrow> node \<Rightarrow> node option" where
  "container w doc =
     first_some [querySelector w (js ''main'') doc, querySelector w (js ''#content'') doc,
                 querySelector w (js ''.content'') doc, querySelector w (js ''.container'') doc,
                 querySelector w (js ''body'') doc]"

text \<open>
  The loop of \<open>parseTagPage\<close> over the nodes, with the current date and the items so far;
  \<open>mk\<close> builds the item of an accepted block and \<open>cap\<close> is the safety cap (80).
\<close>

fun scan_nodes ::
  "(node \<Rightarrow> jsstring \<Rightarrow> jsstring \<Rightarrow> 'i) \<Rightarrow> nat \<Rightarrow> node list \<Rightarrow> jsstring \<Rightarrow> 'i list \<Rightarrow> 'i list" where
  "scan_nodes mk cap [] currentDateISO out = out"
| "scan_nodes mk cap (el # els) currentDateISO out =
     (let text = clean (textContent el); iso = extractISODate text in
      if iso \<noteq> [] then scan_nodes mk cap els iso out
      else if (tagName el \<noteq> js ''p'' \<and> tagName el \<noteq> js ''li'') \<or> currentDateISO = []
      then scan_nodes mk cap els currentDateISO out
      else if text = [] \<or> length text < 15 then scan_nodes mk cap els currentDateISO out
      else if cap \<le> length (out @ [mk el text currentDateISO]) then out @ [mk el text currentDateISO]
      else scan_nodes mk cap els currentDateISO (out @ [mk el text currentDateISO]))"

definition last_anchor :: "node \<Rightarrow> node option" where
  "last_anchor el = (case by_tag (js ''a'') el of [] \<Rightarrow> None | a # as \<Rightarrow> Some (last (a # as)))"

definition anchor_url :: "node option \<Rightarrow> jsstring" where
  "anchor_url lastA =
     (case lastA of None \<Rightarrow> []
      | Some a \<Rightarrow> (case getAttribute a (js ''href'') of None \<Rightarrow> [] | Some h \<Rightarrow> h))"

definition anchor_text :: "node option \<Rightarrow> jsstring" where
  "anchor_text lastA = clean (case lastA of None \<Rightarrow> [] | Some a \<Rightarrow> textContent a)"

definition or_HoopsHype :: "jsstring \<Rightarrow> jsstring" where
  "or_HoopsHype s = (if s = [] then js ''HoopsHype'' else s)"

definition html_item :: "world \<Rightarrow> node \<Rightarrow> jsstring \<Rightarrow> jsstring \<Rightarrow> item" where
  "html_item w el text currentDateISO =
     \<lparr>title = text, url = anchor_url (last_anchor el), date = currentDateISO,
      snippet_html = paragraphHTML w el,
      sourceName = or_HoopsHype (anchor_text (last_anchor el)),
      lastAnchorText = anchor_text (last_anchor el)\<rparr>"

definition plain_item :: "node \<Rightarrow> jsstring \<Rightarrow> jsstring \<Rightarrow> rumor" where
  "plain_item el text currentDateISO =
     \<lparr>title = text, url = anchor_url (last_anchor el), date = currentDateISO,
      source = or_HoopsHype (anchor_text (last_anchor el)), snippet = text\<rparr>"

text \<open>
  \<open>parseTagPage(html, dbg)\<close> of the link-preserving variants and of the plain-text variant.
  Without a container (a document without \<open>body\<close>) \<open>container.querySelectorAll\<close> throws.
\<close>

definition parse_page ::
  "world \<Rightarrow> (node \<Rightarrow> jsstring \<Rightarrow> jsstring \<Rightarrow> 'i) \<Rightarrow> jsstring \<Rightarrow> dbg \<Rightarrow> error + 'i list \<times> dbg" where
  "parse_page w mk html dbg =
     (case container w (jsdom_html w html) of
        None \<Rightarrow> Inl (TypeError (js ''Cannot read properties of null (reading 'querySelectorAll')''))
      | Some c \<Rightarrow>
          (let nodes = querySelectorAll w (js ''*'') c;
               dbg1 = add_count dbg (js ''scannedNodes'') (length nodes);
               out = scan_nodes mk 80 nodes [] []
           in Inr (out, add_count dbg1 (js ''parsedItemsOnPage'') (length out))))"

definition parseTagPage :: "world \<Rightarrow> jsstring \<Rightarrow> dbg \<Rightarrow> error + item list \<times> dbg" where
  "parseTagPage w html dbg = parse_page w (html_item w) html dbg"

definition parseTagPage_plain :: "world \<Rightarrow> jsstring \<Rightarrow> dbg \<Rightarrow> error + rumor list \<times> dbg" where
  "parseTagPage_plain w html dbg = parse_page w plain_item html dbg"

section \<open>Authenticated tag-crawl strategy and its handlers\<close>

text \<open>
  The page loop of \<open>collectFromOneTag(slug, dbg)\<close> (link-preserving variants; the key prefix is
  120 and the page error is recorded under \<open>page<n>Error_<slug>\<close>) and of \<open>collectFromTag\<close>
  (plain-text variant; prefix 80, \<open>page<n>Error\<close>), over the pages still to visit.
  \<open>encodeURIComponent\<close> is outside the \<open>try\<close>, and so is \<open>parseTagPage\<close>: what they throw leaves the
  function. A failed fetch ends the loop. The result comes with the trace and the URLs fetched.
\<close>

fun collect_pages ::
  "world \<Rightarrow> (jsstring \<Rightarrow> dbg \<Rightarrow> error + 'a base_item_scheme list \<times> dbg) \<Rightarrow> nat \<Rightarrow> jsstring \<Rightarrow>
   jsstring \<Rightarrow> nat list \<Rightarrow> 'a base_item_scheme list \<Rightarrow> jsstring set \<Rightarrow> dbg \<Rightarrow>
   (error + 'a base_item_scheme list) \<times> dbg \<times> jsstring list" where
  "collect_pages w parse n sfx slug [] items seen dbg = (Inr items, dbg, [])"
| "collect_pages w parse n sfx slug (page # pages) items seen dbg =
     (case tag_page_url w slug page of
        Inl e \<Rightarrow> (Inl e, dbg, [])
      | Inr u \<Rightarrow>
          (case fetchText w u of
             (Inl e, log) \<Rightarrow>
               (Inr items, dbg(js ''page'' @ dec page @ js ''Error'' @ sfx \<mapsto> Str (error_text e)), log)
           | (Inr html, log) \<Rightarrow>
               (case parse html dbg of
                  Inl e \<Rightarrow> (Inl e, dbg, log)
                | Inr (parsed, dbg1) \<Rightarrow>
                    (case dedup_loop n parsed items seen of
                       (items1, seen1) \<Rightarrow>
                         if 150 \<le> length items1 then (Inr items1, dbg1, log)
                         else (case collect_pages w parse n sfx slug pages items1 seen1 dbg1 of
                                 (r, dbg2, log2) \<Rightarrow> (r, dbg2, log @ log2))))))"

definition collectFromOneTag ::
  "world \<Rightarrow> jsstring \<Rightarrow> dbg \<Rightarrow> (error + item list) \<times> dbg \<times> jsstring list" where
  "collectFromOneTag w slug dbg =
     collect_pages w (parseTagPage w) 120 (js ''_'' @ slug) slug [1..<11] [] {} dbg"

text \<open>
  \<open>collectFromTag\<close> then sorts, keeps the items with a link and returns the first five,
  recording two counters.
\<close>

definition collectFromTag ::
  "world \<Rightarrow> jsstring \<Rightarrow> dbg \<Rightarrow> (error + rumor list) \<times> dbg \<times> jsstring list" where
  "collectFromTag w slug dbg =
     (case collect_pages w (parseTagPage_plain w) 80 [] slug [1..<11] [] {} dbg of
        (Inl e, dbg1, log) \<Rightarrow> (Inl e, dbg1, log)
      | (Inr collected, dbg1, log) \<Rightarrow>
          (let sorted = array_sort by_date_desc collected;
               top5 = slice 0 5 (filter (\<lambda>x. url x \<noteq> []) sorted)
           in (Inr top5,
               dbg1(js ''totalCollected'' \<mapsto> Num (length sorted), js ''returning'' \<mapsto> Num (length top5)),
               log)))"

text \<open>
  The handler of the plain-text variant.
\<close>

definition handler_plain :: "world \<Rightarrow> event \<Rightarrow> rumor response \<times> jsstring list" where
  "handler_plain w ev =
     (let qs = param_trim (q ev) in
      if qs = [] then (json 400 (ErrorBody (js ''Missing q'') None), [])
      else
        (let slug = slugify w qs; dbg = [js ''slug'' \<mapsto> Str slug] in
         case collectFromTag w slug dbg of
           (Inl e, dbg1, log) \<Rightarrow> (json 500 (ErrorBody (message_or_unknown e) (Some dbg1)), log)
         | (Inr items, dbg1, log) \<Rightarrow>
             (json 200 (ItemsBody qs items (if debug_flag ev then Some dbg1 else None)), log)))"

text \<open>
  The payload of the link-preserving variants. \<open>fmtMonthAbbrev\<close> reads
  \<open>/^(\d{4})-(\d{2})-(\d{2})$/\<close>; \<open>names[mon-1]\<close> outside the table is \<open>undefined\<close>, which the
  template prints. \<open>bodyAlreadyHasSource\<close> applies the \<open>AnchorEnd\<close> expression through the
  engine; \<open>s.replace(/\/+$/, "")\<close> drops the trailing slashes.
\<close>

record payload =
  out_date :: jsstring
  date_pretty :: jsstring
  out_snippet_html :: jsstring
  out_sourceName :: jsstring
  sourceUrl :: jsstring
  suppressSource :: "bool option"

definition month_names :: "jsstring list" where
  "month_names = [js ''Jan.'', js ''Feb.'', js ''Mar.'', js ''Apr.'', js ''May'', js ''Jun.'',
                  js ''Jul.'', js ''Aug.'', js ''Sep.'', js ''Oct.'', js ''Nov.'', js ''Dec.'']"

definition fmtMonthAbbrev :: "jsstring \<Rightarrow> jsstring" where
  "fmtMonthAbbrev dateStr =
     (if length dateStr = 10 \<and> list_all is_digit (take 4 dateStr) \<and> dateStr ! 4 = 45 \<and>
         list_all is_digit (take 2 (drop 5 dateStr)) \<and> dateStr ! 7 = 45 \<and>
         list_all is_digit (drop 8 dateStr)
      then (let y = take 4 dateStr; mon = parseInt (take 2 (drop 5 dateStr));
                d = parseInt (drop 8 dateStr)
            in (if 1 \<le> mon \<and> mon \<le> 12 then month_names ! (mon - 1) else js ''undefined'') @
               js '' '' @ dec d @ js '', '' @ y)
      else [])"

definition strip_trailing_slashes :: "jsstring \<Rightarrow> jsstring" where
  "strip_trailing_slashes s = rev (dropWhile (\<lambda>c. c = 47) (rev s))"

definition bodyAlreadyHasSource :: "world \<Rightarrow> item \<Rightarrow> bool" where
  "bodyAlreadyHasSource w it =
     (if url it = [] then False
      else (case regexp_exec w AnchorEnd (trim (snippet_html it)) of
              Some [g1, g2] \<Rightarrow>
                strip_trailing_slashes g1 = strip_trailing_slashes (url it) \<or>
                toLowerCase w (clean g2) = toLowerCase w (sourceName it)
            | _ \<Rightarrow> False))"

definition payload8 :: "world \<Rightarrow> item \<Rightarrow> payload" where
  "payload8 w it =
     \<lparr>out_date = date it, date_pretty = fmtMonthAbbrev (date it),
      out_snippet_html = snippet_html it, out_sourceName = sourceName it, sourceUrl = url it,
      suppressSource = Some (bodyAlreadyHasSource w it)\<rparr>"

definition payload5 :: "item \<Rightarrow> payload" where
  "payload5 it =
     \<lparr>out_date = date it, date_pretty = fmtMonthAbbrev (date it),
      out_snippet_html = snippet_html it, out_sourceName = sourceName it, sourceUrl = url it,
      suppressSource = None\<rparr>"

text \<open>
  \<open>qRaw.split(",")\<close>, and the subjects \<open>qRaw.split(",").map(s => clean(s)).filter(Boolean)\<close>.
\<close>

fun split_comma :: "jsstring \<Rightarrow> jsstring list" where
  "split_comma [] = [[]]"
| "split_comma (c # cs) =
     (if c = 44 then [] # split_comma cs
      else (case split_comma cs of [] \<Rightarrow> [[c]] | p # ps \<Rightarrow> (c # p) # ps))"

definition subjects_of :: "jsstring \<Rightarrow> jsstring list" where
  "subjects_of qRaw = filter (\<lambda>s. s \<noteq> []) (map clean (split_comma qRaw))"

text \<open>
  \<open>for (const slug of slugs) merged = merged.concat(await collectFromOneTag(slug, dbg))\<close>.
\<close>

fun collect_all ::
  "world \<Rightarrow> jsstring list \<Rightarrow> item list \<Rightarrow> dbg \<Rightarrow> (error + item list) \<times> dbg \<times> jsstring list" where
  "collect_all w [] merged dbg = (Inr merged, dbg, [])"
| "collect_all w (slug # slugs) merged dbg =
     (case collectFromOneTag w slug dbg of
        (Inl e, dbg1, log) \<Rightarrow> (Inl e, dbg1, log)
      | (Inr part, dbg1, log) \<Rightarrow>
          (case collect_all w slugs (merged @ part) dbg1 of
             (r, dbg2, log2) \<Rightarrow> (r, dbg2, log @ log2)))"

text \<open>
  The handler of the link-preserving variants: \<open>lo\<close> and \<open>hi\<close> are the bounds of the window
  (\<open>dedup.slice(1, 9)\<close> in the eight-item variant, \<open>dedup.slice(1, 6)\<close> in the five-item one),
  \<open>pay\<close> is the payload of the variant.
\<close>

definition handler_window ::
  "nat \<Rightarrow> nat \<Rightarrow> (item \<Rightarrow> payload) \<Rightarrow> world \<Rightarrow> event \<Rightarrow> payload response \<times> jsstring list" where
  "handler_window lo hi pay w ev =
     (let qRaw = param_trim (q ev) in
      if qRaw = [] then (json 400 (ErrorBody (js ''Missing q'') None), [])
      else
        (let subjects = subjects_of qRaw; slugs = map (slugify w) subjects;
             dbg = [js ''subjects'' \<mapsto> Strs subjects, js ''slugs'' \<mapsto> Strs slugs] in
         case collect_all w slugs [] dbg of
           (Inl e, dbg1, log) \<Rightarrow> (json 500 (ErrorBody (message_or_unknown e) (Some dbg1)), log)
         | (Inr merged, dbg1, log) \<Rightarrow>
             (let dedup = rank_dedup merged;
                  items = map pay (slice lo hi dedup)
              in (json 200 (ItemsBody qRaw items
                    (if debug_flag ev
                     then Some (dbg1(js ''totalMerged'' \<mapsto> Num (length merged),
                                     js ''totalAfterDedup'' \<mapsto> Num (length dedup),
                                     js ''returning'' \<mapsto> Num (length items)))
                     else None)), log))))"

definition handler_eight :: "world \<Rightarrow> event \<Rightarrow> payload response \<times> jsstring list" where
  "handler_eight w ev = handler_window 1 9 (payload8 w) w ev"

definition handler_five :: "world \<Rightarrow> event \<Rightarrow> payload response \<times> jsstring list" where
  "handler_five w ev = handler_window 1 6 payload5 w ev"

section \<open>Feed and index strategies (two-strategy variant)\<close>

text \<open>
  \<open>toISO(dstr)\<close>: \<open>new Date(dstr)\<close> is invalid for \<open>undefined\<close> and for the empty string, and
  otherwise what the host's parser says; \<open>isNaN(d) ? "" : d.toISOString().slice(0,10)\<close>.
  \<open>a || b\<close> on strings. \<open>normSource\<close> and \<open>sourceFrom\<close> differ in the dash expression only.
\<close>

definition toISO :: "world \<Rightarrow> jsstring option \<Rightarrow> jsstring" where
  "toISO w dstr =
     (case dstr of
        None \<Rightarrow> []
      | Some s \<Rightarrow>
          if s = [] then []
          else (case Date_parse w s of None \<Rightarrow> [] | Some t \<Rightarrow> take 10 (toISOString w t)))"

definition or_else :: "jsstring \<Rightarrow> jsstring \<Rightarrow> jsstring" where
  "or_else a b = (if a = [] then b else a)"

definition source_of :: "world \<Rightarrow> regexp \<Rightarrow> jsstring \<Rightarrow> jsstring" where
  "source_of w dash text =
     (case regexp_exec w Via text of
        Some (g # gs) \<Rightarrow> trim g
      | _ \<Rightarrow> (case regexp_exec w dash (trim text) of
                Some (g # gs) \<Rightarrow> trim g
              | _ \<Rightarrow> js ''HoopsHype''))"

definition normSource :: "world \<Rightarrow> jsstring \<Rightarrow> jsstring" where
  "normSource w text = source_of w Dash text"

definition sourceFrom :: "world \<Rightarrow> jsstring \<Rightarrow> jsstring" where
  "sourceFrom w text = source_of w DashI text"

definition RUMORS_FEED :: jsstring where
  "RUMORS_FEED = js ''https://hoopshype.com/category/rumors/feed/''"

definition RUMORS_INDEX :: jsstring where
  "RUMORS_INDEX = js ''https://hoopshype.com/rumors/''"

text \<open>
  Feed-item extraction. On an XML document every selector is the selector engine's.
  \<open>it.querySelector(name)?.textContent || ""\<close>.
\<close>

record feed_entry = base_item +
  desc :: jsstring

definition xml_field :: "world \<Rightarrow> node \<Rightarrow> jsstring \<Rightarrow> jsstring" where
  "xml_field w it name = (case select w name it of [] \<Rightarrow> [] | e # es \<Rightarrow> textContent e)"

definition feed_entries :: "world \<Rightarrow> node \<Rightarrow> feed_entry list" where
  "feed_entries w doc =
     map (\<lambda>it. \<lparr>title = xml_field w it (js ''title''), url = xml_field w it (js ''link''),
                 date = toISO w (Some (xml_field w it (js ''pubDate''))),
                 desc = xml_field w it (js ''description'')\<rparr>)
       (select w (js ''item'') doc)"

text \<open>
  \<open>xs.filter(x => m(x))\<close> for a matcher that may throw: the first throw leaves the filter.
  The loop that keeps the first \<open>cap\<close> entries with pairwise different \<open>url\<close>.
\<close>

fun filter_throwing :: "('a \<Rightarrow> error + bool) \<Rightarrow> 'a list \<Rightarrow> error + 'a list" where
  "filter_throwing m [] = Inr []"
| "filter_throwing m (x # xs) =
     (case m x of
        Inl e \<Rightarrow> Inl e
      | Inr b \<Rightarrow> (case filter_throwing m xs of
                   Inl e \<Rightarrow> Inl e
                 | Inr ys \<Rightarrow> Inr (if b then x # ys else ys)))"

fun unique_by_url ::
  "nat \<Rightarrow> 'a base_item_scheme list \<Rightarrow> 'a base_item_scheme list \<Rightarrow> jsstring set \<Rightarrow>
   'a base_item_scheme list" where
  "unique_by_url cap [] unique seen = unique"
| "unique_by_url cap (m # ms) unique seen =
     (if url m \<in> seen then unique_by_url cap ms unique seen
      else if cap \<le> length (unique @ [m]) then unique @ [m]
      else unique_by_url cap ms (unique @ [m]) (insert (url m) seen))"

text \<open>
  The hydration of one candidate in \<open>getFromRSS\<close> and in \<open>getFromIndex\<close>: inside the \<open>try\<close> only
  the fetch can fail (the page's status is not looked at), and the \<open>catch\<close> pushes a fallback
  item. The element \<open>time[datetime]\<close> selects has the attribute.
\<close>

definition first_paragraph :: "world \<Rightarrow> node \<Rightarrow> jsstring option" where
  "first_paragraph w doc =
     (case querySelector w (js ''article p'') doc of
        None \<Rightarrow> None | Some p \<Rightarrow> Some (clean (textContent p)))"

definition meta_date :: "world \<Rightarrow> node \<Rightarrow> jsstring option" where
  "meta_date w doc =
     (case querySelector w (js ''time[datetime]'') doc of
        None \<Rightarrow> None | Some t \<Rightarrow> getAttribute t (js ''datetime''))"

definition refine :: "world \<Rightarrow> jsstring \<Rightarrow> 'a base_item_scheme \<Rightarrow> rumor" where
  "refine w fallback_date it =
     (case fetch w (url it) of
        Rejected e \<Rightarrow>
          \<lparr>title = title it, url = url it, date = fallback_date,
           source = js ''HoopsHype'', snippet = title it\<rparr>
      | Response status html \<Rightarrow>
          (let doc = jsdom_html w html in
           \<lparr>title = title it, url = url it,
            date = or_else (toISO w (meta_date w doc)) fallback_date,
            source = or_else (normSource w html) (normSource w (title it)),
            snippet = (case first_paragraph w doc of Some s \<Rightarrow> s | None \<Rightarrow> title it)\<rparr>))"

text \<open>
  \<open>getFromRSS\<close>: a rejected fetch of the feed, a feed that is not \<open>ok\<close>, a malformed document
  and a throwing matcher all leave the function as exceptions.
\<close>

definition getFromRSS ::
  "world \<Rightarrow> jsstring \<Rightarrow> jsstring \<Rightarrow> (error + rumor list) \<times> jsstring list" where
  "getFromRSS w query md =
     (case fetch w RUMORS_FEED of
        Rejected e \<Rightarrow> (Inl e, [RUMORS_FEED])
      | Response status xml \<Rightarrow>
          if \<not> ok status then (Inl (Error (js ''RSS not reachable'')), [RUMORS_FEED])
          else
            (case jsdom_xml w xml of
               Inl e \<Rightarrow> (Inl e, [RUMORS_FEED])
             | Inr doc \<Rightarrow>
                 (case filter_throwing
                         (\<lambda>x. matchMode w query md (title x @ js '' '' @ desc x))
                         (feed_entries w doc) of
                    Inl e \<Rightarrow> (Inl e, [RUMORS_FEED])
                  | Inr matches \<Rightarrow>
                      (let unique = unique_by_url 12 (slice 0 20 matches) [] {};
                           refined = map (\<lambda>it. refine w (date it) it) unique
                       in (Inr (slice 0 5 (array_sort by_date_desc refined)),
                           RUMORS_FEED # map url unique)))))"

text \<open>
  \<open>getFromIndex\<close>: the page loop (a rejected fetch throws, a page that is not \<open>ok\<close> is skipped),
  then matcher, uniqueness and hydration. \<open>a.querySelector("a")?.href\<close> is the host's \<open>href\<close>
  property of the first anchor; \<open>a.querySelector("h2, h3")?.textContent || a.textContent || ""\<close>.
\<close>

definition article_links :: "world \<Rightarrow> node \<Rightarrow> base_item list" where
  "article_links w doc =
     concat (map (\<lambda>a.
        (case querySelector w (js ''a'') a of
           None \<Rightarrow> []
         | Some l \<Rightarrow>
             if href_prop w l = [] then []
             else [\<lparr>title = or_else (case querySelector w (js ''h2, h3'') a of
                                         None \<Rightarrow> [] | Some h \<Rightarrow> textContent h)
                                      (textContent a),
                     url = href_prop w l, date = []\<rparr>]))
       (querySelectorAll w (js ''article'') doc))"

fun index_pages ::
  "world \<Rightarrow> jsstring list \<Rightarrow> base_item list \<Rightarrow> (error + base_item list) \<times> jsstring list" where
  "index_pages w [] acc = (Inr acc, [])"
| "index_pages w (u # us) acc =
     (case fetch w u of
        Rejected e \<Rightarrow> (Inl e, [u])
      | Response status html \<Rightarrow>
          (case index_pages w us
                  (if ok status then acc @ article_links w (jsdom_html w html) else acc) of
             (r, log) \<Rightarrow> (r, u # log)))"

definition getFromIndex ::
  "world \<Rightarrow> jsstring \<Rightarrow> jsstring \<Rightarrow> (error + rumor list) \<times> jsstring list" where
  "getFromIndex w query md =
     (case index_pages w
             [RUMORS_INDEX, RUMORS_INDEX @ js ''page/2/'', RUMORS_INDEX @ js ''page/3/''] [] of
        (Inl e, log) \<Rightarrow> (Inl e, log)
      | (Inr acc, log) \<Rightarrow>
          (case filter_throwing (\<lambda>x. matchMode w query md (title x)) acc of
             Inl e \<Rightarrow> (Inl e, log)
           | Inr filt \<Rightarrow>
               (let unique = unique_by_url 12 filt [] {};
                    out = map (refine w []) unique
                in (Inr (slice 0 5 (array_sort by_date_desc out)), log @ map url unique))))"

text \<open>
  The handler of the two-strategy variant: \<open>getFromRSS\<close>, and \<open>getFromIndex\<close> when it throws; an
  exception of \<open>getFromIndex\<close> is answered with status 500.
\<close>

definition mode_param :: "world \<Rightarrow> event \<Rightarrow> jsstring" where
  "mode_param w ev =
     toLowerCase w (case mode ev of None \<Rightarrow> js ''player''
                    | Some m \<Rightarrow> if m = [] then js ''player'' else m)"

definition handler_feed :: "world \<Rightarrow> event \<Rightarrow> rumor response \<times> jsstring list" where
  "handler_feed w ev =
     (let qs = param_trim (q ev); md = mode_param w ev in
      if qs = [] then (json 400 (ErrorBody (js ''Missing q'') None), [])
      else
        (case getFromRSS w qs md of
           (Inr items, log) \<Rightarrow> (json 200 (ItemsBody qs items None), log)
         | (Inl e, log) \<Rightarrow>
             (case getFromIndex w qs md of
                (Inr items, log2) \<Rightarrow> (json 200 (ItemsBody qs items None), log @ log2)
              | (Inl e2, log2) \<Rightarrow>
                  (json 500 (ErrorBody (message_or_unknown e2) None), log @ log2))))"

section \<open>The four-strategy variant and its orchestrator\<close>

text \<open>
  \<open>fetchText\<close> of this variant (its message differs), the search URLs, and \<open>isRumorsLanding\<close>:
  \<open>url.replace(/^https?:\/\/(www\.)?/i, "https://").replace(/\/+$/, "")\<close> compared with the
  landing page. The letters of the expression are ASCII, so ignoring case is ignoring the
  case of ASCII letters.
\<close>

definition fetchText_site :: "world \<Rightarrow> jsstring \<Rightarrow> (error + jsstring) \<times> jsstring list" where
  "fetchText_site w u =
     (case fetch w u of
        Rejected e \<Rightarrow> (Inl e, [u])
      | Response status text \<Rightarrow>
          if ok status then (Inr text, [u])
          else (Inl (Error (js ''Fetch '' @ dec status @ js '' '' @ u)), [u]))"

definition SEARCH_RSS :: "world \<Rightarrow> jsstring \<Rightarrow> error + jsstring" where
  "SEARCH_RSS w query =
     (case encodeURIComponent w query of
        Inl e \<Rightarrow> Inl e
      | Inr enc \<Rightarrow> Inr (js ''https://hoopshype.com/?s='' @ enc @ js ''&feed=rss2''))"

definition SEARCH_HTML :: "world \<Rightarrow> jsstring \<Rightarrow> error + jsstring" where
  "SEARCH_HTML w query =
     (case encodeURIComponent w query of
        Inl e \<Rightarrow> Inl e
      | Inr enc \<Rightarrow> Inr (js ''https://hoopshype.com/?s='' @ enc))"

definition drop_www :: "jsstring \<Rightarrow> jsstring" where
  "drop_www s = (if prefix (js ''www.'') (map lower_ascii s) then drop 4 s else s)"

definition normalize_scheme :: "jsstring \<Rightarrow> jsstring" where
  "normalize_scheme u =
     (if prefix (js ''https://'') (map lower_ascii u) then js ''https://'' @ drop_www (drop 8 u)
      else if prefix (js ''http://'') (map lower_ascii u) then js ''https://'' @ drop_www (drop 7 u)
      else u)"

definition isRumorsLanding :: "jsstring \<Rightarrow> bool" where
  "isRumorsLanding u \<longleftrightarrow>
     strip_trailing_slashes (normalize_scheme u) = js ''https://hoopshype.com/rumors''"

text \<open>
  One turn of a hydration loop: the body of the \<open>try\<close> gives an item, or nothing when it
  \<open>continue\<close>s or throws (the \<open>catch\<close> is empty). The loops stop at five items.
  \<open>doc.querySelector("article") || doc.body\<close>; without either, \<open>article.textContent\<close> throws.
\<close>

definition article_body :: "world \<Rightarrow> node \<Rightarrow> jsstring option" where
  "article_body w doc =
     (case first_some [querySelector w (js ''article'') doc, querySelector w (js ''body'') doc] of
        None \<Rightarrow> None | Some a \<Rightarrow> Some (clean (textContent a)))"

definition datetime_or :: "world \<Rightarrow> node \<Rightarrow> jsstring \<Rightarrow> jsstring" where
  "datetime_or w doc other =
     (case meta_date w doc of None \<Rightarrow> other | Some d \<Rightarrow> if d = [] then other else d)"

definition paragraph_or :: "world \<Rightarrow> node \<Rightarrow> jsstring \<Rightarrow> jsstring" where
  "paragraph_or w doc other =
     (case querySelector w (js ''article p'') doc of
        None \<Rightarrow> clean other | Some p \<Rightarrow> clean (textContent p))"

definition hydrate_entry ::
  "world \<Rightarrow> (jsstring \<Rightarrow> error + bool) \<Rightarrow> feed_entry \<Rightarrow> rumor option \<times> jsstring list" where
  "hydrate_entry w matcher it =
     (case fetchText_site w (url it) of
        (Inl e, log) \<Rightarrow> (None, log)
      | (Inr html, log) \<Rightarrow>
          (let doc = jsdom_html w html in
           if querySelector w (js ''time[datetime]'') doc = None then (None, log)
           else
             (case article_body w doc of
                None \<Rightarrow> (None, log)
              | Some text \<Rightarrow>
                  (case matcher (text @ js '' '' @ title it @ js '' '' @ desc it) of
                     Inl e \<Rightarrow> (None, log)
                   | Inr False \<Rightarrow> (None, log)
                   | Inr True \<Rightarrow>
                       (Some \<lparr>title = clean (title it), url = url it,
                              date = toISO w (Some (datetime_or w doc (date it))),
                              source = or_else (sourceFrom w html) (sourceFrom w (title it)),
                              snippet = paragraph_or w doc (title it)\<rparr>, log)))))"

definition hydrate_link ::
  "world \<Rightarrow> (jsstring \<Rightarrow> error + bool) \<Rightarrow> jsstring \<Rightarrow> rumor option \<times> jsstring list" where
  "hydrate_link w matcher u =
     (case fetchText_site w u of
        (Inl e, log) \<Rightarrow> (None, log)
      | (Inr html, log) \<Rightarrow>
          (let doc = jsdom_html w html in
           if querySelector w (js ''time[datetime]'') doc = None then (None, log)
           else
             (case article_body w doc of
                None \<Rightarrow> (None, log)
              | Some text \<Rightarrow>
                  (case matcher text of
                     Inl e \<Rightarrow> (None, log)
                   | Inr False \<Rightarrow> (None, log)
                   | Inr True \<Rightarrow>
                       (let t = clean (case querySelector w (js ''h1, h2'') doc of
                                         None \<Rightarrow> [] | Some h \<Rightarrow> textContent h)
                        in (Some \<lparr>title = t, url = u,
                                  date = toISO w (Some (datetime_or w doc [])),
                                  source = or_else (sourceFrom w html) (sourceFrom w t),
                                  snippet = paragraph_or w doc t\<rparr>, log))))))"

fun hydrate_loop ::
  "('c \<Rightarrow> rumor option \<times> jsstring list) \<Rightarrow> 'c list \<Rightarrow> rumor list \<Rightarrow> rumor list \<times> jsstring list" where
  "hydrate_loop h [] out = (out, [])"
| "hydrate_loop h (c # cs) out =
     (case h c of
        (None, log) \<Rightarrow> (case hydrate_loop h cs out of (r, log2) \<Rightarrow> (r, log @ log2))
      | (Some it, log) \<Rightarrow>
          if 5 \<le> length (out @ [it]) then (out @ [it], log)
          else (case hydrate_loop h cs (out @ [it]) of (r, log2) \<Rightarrow> (r, log @ log2)))"

text \<open>
  A strategy is the body of its \<open>try\<close>, which may throw, inside \<open>catch { return []; }\<close>. What
  the body has written to the trace before it throws stays written.
\<close>

type_synonym strategy_result = "(error + rumor list) \<times> dbg \<times> jsstring list"

definition catch_empty :: "strategy_result \<Rightarrow> strategy_result" where
  "catch_empty r = (case r of (Inl e, dbg, log) \<Rightarrow> (Inr [], dbg, log) | (Inr items, dbg, log) \<Rightarrow> r)"

definition parse_feed ::
  "world \<Rightarrow> error + jsstring \<Rightarrow> (error + feed_entry list) \<times> jsstring list" where
  "parse_feed w target =
     (case target of
        Inl e \<Rightarrow> (Inl e, [])
      | Inr u \<Rightarrow>
          (case fetchText_site w u of
             (Inl e, log) \<Rightarrow> (Inl e, log)
           | (Inr xml, log) \<Rightarrow>
               (case jsdom_xml w xml of
                  Inl e \<Rightarrow> (Inl e, log)
                | Inr doc \<Rightarrow> (Inr (feed_entries w doc), log))))"

definition fromSearchRSS_try ::
  "world \<Rightarrow> jsstring \<Rightarrow> (jsstring \<Rightarrow> error + bool) \<Rightarrow> dbg \<Rightarrow> strategy_result" where
  "fromSearchRSS_try w query matcher dbg =
     (case parse_feed w (SEARCH_RSS w query) of
        (Inl e, log) \<Rightarrow> (Inl e, dbg, log)
      | (Inr items, log) \<Rightarrow>
          (let candidates =
                 array_sort by_date_desc
                   (filter (\<lambda>x. sublist (js ''/rumors/'') (url x) \<and> \<not> isRumorsLanding (url x)) items)
           in case hydrate_loop (hydrate_entry w matcher) candidates [] of
                (out, log2) \<Rightarrow>
                  (Inr out,
                   dbg(js ''rssCount'' \<mapsto> Num (length items),
                       js ''rssRumorsCount'' \<mapsto> Num (length candidates)),
                   log @ log2)))"

definition fromSearchRSS ::
  "world \<Rightarrow> jsstring \<Rightarrow> (jsstring \<Rightarrow> error + bool) \<Rightarrow> dbg \<Rightarrow> strategy_result" where
  "fromSearchRSS w query matcher dbg = catch_empty (fromSearchRSS_try w query matcher dbg)"

text \<open>
  \<open>fromSearchHTML\<close>: the links of the result page; \<open>if (!url || seen.has(url)) continue;
  seen.add(url)\<close> visits each link at its first occurrence.
\<close>

fun skip_seen :: "jsstring list \<Rightarrow> jsstring set \<Rightarrow> jsstring list" where
  "skip_seen [] seen = []"
| "skip_seen (u # us) seen =
     (if u \<in> seen then skip_seen us seen else u # skip_seen us (insert u seen))"

definition search_links :: "world \<Rightarrow> node \<Rightarrow> jsstring list" where
  "search_links w doc =
     filter (\<lambda>u. u \<noteq> [] \<and> sublist (js ''/rumors/'') u \<and> \<not> isRumorsLanding u)
       (concat (map (\<lambda>a. case getAttribute a (js ''href'') of None \<Rightarrow> [] | Some h \<Rightarrow> [h])
                  (querySelectorAll w (js ''a'') doc)))"

definition fromSearchHTML_try ::
  "world \<Rightarrow> jsstring \<Rightarrow> (jsstring \<Rightarrow> error + bool) \<Rightarrow> dbg \<Rightarrow> strategy_result" where
  "fromSearchHTML_try w query matcher dbg =
     (case SEARCH_HTML w query of
        Inl e \<Rightarrow> (Inl e, dbg, [])
      | Inr u \<Rightarrow>
          (case fetchText_site w u of
             (Inl e, log) \<Rightarrow> (Inl e, dbg, log)
           | (Inr html, log) \<Rightarrow>
               (let links = search_links w (jsdom_html w html) in
                case hydrate_loop (hydrate_link w matcher) (skip_seen links {}) [] of
                  (out, log2) \<Rightarrow>
                    (Inr (slice 0 5 (array_sort by_date_desc out)),
                     dbg(js ''searchLinks'' \<mapsto> Num (length links)), log @ log2))))"

definition fromSearchHTML ::
  "world \<Rightarrow> jsstring \<Rightarrow> (jsstring \<Rightarrow> error + bool) \<Rightarrow> dbg \<Rightarrow> strategy_result" where
  "fromSearchHTML w query matcher dbg = catch_empty (fromSearchHTML_try w query matcher dbg)"

text \<open>\<open>fromRumorsFeed\<close>: the category feed, in its own order.\<close>

definition fromRumorsFeed_try ::
  "world \<Rightarrow> jsstring \<Rightarrow> (jsstring \<Rightarrow> error + bool) \<Rightarrow> dbg \<Rightarrow> strategy_result" where
  "fromRumorsFeed_try w query matcher dbg =
     (case parse_feed w (Inr RUMORS_FEED) of
        (Inl e, log) \<Rightarrow> (Inl e, dbg, log)
      | (Inr items, log) \<Rightarrow>
          (case hydrate_loop (hydrate_entry w matcher)
                  (filter (\<lambda>x. url x \<noteq> [] \<and> \<not> isRumorsLanding (url x)) items) [] of
             (out, log2) \<Rightarrow>
               (Inr out, dbg(js ''rumorsFeedCount'' \<mapsto> Num (length items)), log @ log2)))"

definition fromRumorsFeed ::
  "world \<Rightarrow> jsstring \<Rightarrow> (jsstring \<Rightarrow> error + bool) \<Rightarrow> dbg \<Rightarrow> strategy_result" where
  "fromRumorsFeed w query matcher dbg = catch_empty (fromRumorsFeed_try w query matcher dbg)"

text \<open>
  \<open>fromRumorsIndex\<close>: three index pages, any of which failing to load ends the strategy; the
  links are collected up to 80, each once, the landing page left out.
\<close>

fun add_links :: "jsstring list \<Rightarrow> jsstring list \<Rightarrow> jsstring list" where
  "add_links [] links = links"
| "add_links (h # hs) links =
     (if h = [] \<or> h \<in> set links \<or> isRumorsLanding h then add_links hs links
      else if 80 \<le> length (links @ [h]) then links @ [h]
      else add_links hs (links @ [h]))"

fun index_links ::
  "world \<Rightarrow> jsstring list \<Rightarrow> jsstring list \<Rightarrow> (error + jsstring list) \<times> jsstring list" where
  "index_links w [] links = (Inr links, [])"
| "index_links w (u # us) links =
     (case fetchText_site w u of
        (Inl e, log) \<Rightarrow> (Inl e, log)
      | (Inr html, log) \<Rightarrow>
          (let links1 =
                 add_links
                   (map (\<lambda>a. case getAttribute a (js ''href'') of None \<Rightarrow> [] | Some h \<Rightarrow> h)
                      (querySelectorAll w (js ''article a'') (jsdom_html w html)))
                   links
           in if 80 \<le> length links1 then (Inr links1, log)
              else (case index_links w us links1 of (r, log2) \<Rightarrow> (r, log @ log2))))"

definition fromRumorsIndex_try ::
  "world \<Rightarrow> jsstring \<Rightarrow> (jsstring \<Rightarrow> error + bool) \<Rightarrow> dbg \<Rightarrow> strategy_result" where
  "fromRumorsIndex_try w query matcher dbg =
     (case index_links w
             [RUMORS_INDEX, RUMORS_INDEX @ js ''page/2/'', RUMORS_INDEX @ js ''page/3/''] [] of
        (Inl e, log) \<Rightarrow> (Inl e, dbg, log)
      | (Inr links, log) \<Rightarrow>
          (case hydrate_loop (hydrate_link w matcher) links [] of
             (out, log2) \<Rightarrow>
               (Inr (slice 0 5 (array_sort by_date_desc out)),
                dbg(js ''indexLinks'' \<mapsto> Num (length links)), log @ log2)))"

definition fromRumorsIndex ::
  "world \<Rightarrow> jsstring \<Rightarrow> (jsstring \<Rightarrow> error + bool) \<Rightarrow> dbg \<Rightarrow> strategy_result" where
  "fromRumorsIndex w query matcher dbg = catch_empty (fromRumorsIndex_try w query matcher dbg)"

text \<open>
  The orchestrator: the strategies in their fixed order, the next one tried while the items
  are empty. The handler has no \<open>try\<close> of its own: an exception of a strategy would leave it,
  which is the \<open>Inl\<close> result.
\<close>

fun orchestrate ::
  "(dbg \<Rightarrow> strategy_result) list \<Rightarrow> dbg \<Rightarrow> strategy_result" where
  "orchestrate [] dbg = (Inr [], dbg, [])"
| "orchestrate (s # ss) dbg =
     (case s dbg of
        (Inl e, dbg1, log) \<Rightarrow> (Inl e, dbg1, log)
      | (Inr items, dbg1, log) \<Rightarrow>
          if items \<noteq> [] then (Inr items, dbg1, log)
          else (case orchestrate ss dbg1 of (r, dbg2, log2) \<Rightarrow> (r, dbg2, log @ log2)))"

definition strategies ::
  "world \<Rightarrow> jsstring \<Rightarrow> (jsstring \<Rightarrow> error + bool) \<Rightarrow> (dbg \<Rightarrow> strategy_result) list" where
  "strategies w query matcher =
     [fromSearchRSS w query matcher, fromSearchHTML w query matcher,
      fromRumorsFeed w query matcher, fromRumorsIndex w query matcher]"

definition handler_site :: "world \<Rightarrow> event \<Rightarrow> (error + rumor response) \<times> jsstring list" where
  "handler_site w ev =
     (let qs = param_trim (q ev); md = mode_param w ev in
      if qs = [] then (Inr (json 400 (ErrorBody (js ''Missing q'') None)), [])
      else
        (case orchestrate (strategies w qs (matchMode w qs md)) Map.empty of
           (Inl e, dbg, log) \<Rightarrow> (Inl e, log)
         | (Inr items, dbg, log) \<Rightarrow>
             (Inr (json 200 (ItemsBody qs items (if debug_flag ev then Some dbg else None))), log)))"

text \<open>
  A world without network for the concrete checks: every fetch is rejected, documents are empty,
  serialization writes tags and attributes without escaping, and the Unicode tables change
  nothing.
\<close>

fun plain_html :: "node \<Rightarrow> jsstring" where
  "plain_html (Text s) = s"
| "plain_html (Comment s) = js ''<!--'' @ s @ js ''-->''"
| "plain_html (Elem t a ks) =
     js ''<'' @ t @ concat (map (\<lambda>(k, v). js '' '' @ k @ js ''=\"'' @ v @ js ''\"'') a) @ js ''>'' @
     concat (map plain_html ks) @ js ''</'' @ t @ js ''>''"

definition offline :: world where
  "offline =
     \<lparr>fetch = (\<lambda>u. Rejected (TypeError (js ''fetch failed''))),
      jsdom_html = (\<lambda>s. Elem [] [] [Elem (js ''html'') [] [Elem (js ''body'') [] []]]),
      jsdom_xml = (\<lambda>s. Inl (Error (js ''not well-formed''))),
      select = (\<lambda>sel n. []),
      innerHTML = (\<lambda>ks. concat (map plain_html ks)),
      href_prop = (\<lambda>n. []),
      toLowerCase_unicode = (\<lambda>s. s),
      normalize_NFD_unicode = (\<lambda>s. s),
      encodeURIComponent_other = (\<lambda>s. Inl (URIError (js ''URI malformed''))),
      Date_parse = (\<lambda>s. None),
      toISOString = (\<lambda>t. []),
      regexp_exec = (\<lambda>r s. None)\<rparr>"

text \<open>
  A world with one tag page: the first page of the tag \<open>jalen_brunson\<close> loads and parses to a
  document with two dated sections; every other fetch is answered 404.
\<close>

definition demo_document :: node where
  "demo_document =
     Elem [] [] [Elem (js ''html'') [] [Elem (js ''body'') [] [Elem (js ''main'') []
       [Elem (js ''h2'') [] [Text (js ''October 15, 2025'')],
        Elem (js ''p'') []
          [Text (js ''Brunson stays, per ''),
           Elem (js ''a'') [(js ''href'', js ''https://espn.com/x''), (js ''class'', js ''src'')]
             [Text (js ''ESPN'')]],
        Elem (js ''p'') [] [Text (js ''Short'')],
        Elem (js ''h2'') [] [Text (js ''October 14, 2025'')],
        Elem (js ''li'') []
          [Text (js ''Knicks like roster ''),
           Elem (js ''a'') [(js ''href'', js ''https://nypost.com/y'')] [Text (js ''NY Post'')]],
        Elem (js ''p'') [] [Text (js ''A third rumor here'')]]]]]"

definition demo :: world where
  "demo =
     offline\<lparr>fetch := (\<lambda>u. if u = js ''http://preview.hoopshype.com/rumors/tag/jalen_brunson/''
                              then Response 200 (js ''<html>'') else Response 404 []),
             jsdom_html := (\<lambda>s. demo_document)\<rparr>"

definition demo_event :: "jsstring option \<Rightarrow> event" where
  "demo_event d = \<lparr>q = Some (js ''Jalen Brunson''), mode = None, debug = d\<rparr>"

text \<open>
  The shape \<open>YYYY-MM-DD\<close> with a month from 01 to 12, against which the results of
  \<open>extractISODate\<close> are compared.
\<close>

definition iso_shape :: "jsstring \<Rightarrow> bool" where
  "iso_shape s \<longleftrightarrow>
     length s = 10 \<and> list_all is_digit (take 4 s) \<and> s ! 4 = 45 \<and>
     list_all is_digit (take 2 (drop 5 s)) \<and> s ! 7 = 45 \<and> list_all is_digit (drop 8 s) \<and>
     1 \<le> parseInt (take 2 (drop 5 s)) \<and> parseInt (take 2 (drop 5 s)) \<le> 12"

text \<open>
  The content area of a tag page with the two paragraphs of \<open>colliding_a\<close> and
  \<open>colliding_b\<close> under one date heading.
\<close>

definition colliding_main :: node where
  "colliding_main =
     Elem (js ''main'') []
       [Elem (js ''h2'') [] [Text (js ''October 15, 2025'')],
        Elem (js ''p'') []
          [Text (js ''Lakers eye a trade::x ''), Elem (js ''a'') [(js ''href'', js ''y'')] [Text (js ''ESPN'')]],
        Elem (js ''p'') []
          [Text (js ''Lakers eye a trade''), Elem (js ''a'') [(js ''href'', js ''x ESPN::y'')] []]]"

text \<open>
  The content areas of two tag pages that carry the same rumor, the second with the credit
  link in bold, and the items the extractor makes of them: equal in date, title and link,
  different in the snippet.
\<close>

definition duplicate_main_1 :: node where
  "duplicate_main_1 =
     Elem (js ''main'') []
       [Elem (js ''h2'') [] [Text (js ''October 15, 2025'')],
        Elem (js ''p'') []
          [Text (js ''Knicks keep Brunson ''),
           Elem (js ''a'') [(js ''href'', js ''https://espn.com/x'')] [Text (js ''ESPN'')]]]"

definition duplicate_main_2 :: node where
  "duplicate_main_2 =
     Elem (js ''main'') []
       [Elem (js ''h2'') [] [Text (js ''October 15, 2025'')],
        Elem (js ''p'') []
          [Text (js ''Knicks keep Brunson ''),
           Elem (js ''b'') []
             [Elem (js ''a'') [(js ''href'', js ''https://espn.com/x'')] [Text (js ''ESPN'')]]]]"

definition duplicate_first :: item where
  "duplicate_first =
     \<lparr>title = js ''Knicks keep Brunson ESPN'', url = js ''https://espn.com/x'',
      date = js ''2025-10-15'',
      snippet_html = js ''Knicks keep Brunson <a href=\"https://espn.com/x\" target=\"_blank\">ESPN</a>'',
      sourceName = js ''ESPN'', lastAnchorText = js ''ESPN''\<rparr>"

definition duplicate_second :: item where
  "duplicate_second =
     \<lparr>title = js ''Knicks keep Brunson ESPN'', url = js ''https://espn.com/x'',
      date = js ''2025-10-15'',
      snippet_html = js ''Knicks keep Brunson ESPN'',
      sourceName = js ''ESPN'', lastAnchorText = js ''ESPN''\<rparr>"

text \<open>
  A world with a longer tag page: the first page of the tag \<open>jalen_brunson\<close> holds ten dated
  sections, from October 19 down to October 10, each with one rumor; every other fetch is
  answered 404. \<open>archive_item k\<close> is the item of the day \<open>2025-10-k\<close> on that page.
\<close>

definition archive_section :: "nat \<Rightarrow> node list" where
  "archive_section k =
     [Elem (js ''h2'') [] [Text (js ''October '' @ dec k @ js '', 2025'')],
      Elem (js ''p'') []
        [Text (js ''Rumor no. '' @ dec k @ js '' ''),
         Elem (js ''a'') [(js ''href'', js ''https://espn.com/'' @ dec k)]
           [Text (js ''ESPN'')]]]"

definition archive_document :: node where
  "archive_document =
     Elem [] [] [Elem (js ''html'') [] [Elem (js ''body'') [] [Elem (js ''main'') []
       (concat (map archive_section (rev [10..<20])))]]]"

definition archive :: world where
  "archive =
     offline\<lparr>fetch := (\<lambda>u. if u = js ''http://preview.hoopshype.com/rumors/tag/jalen_brunson/''
                              then Response 200 (js ''<html>'') else Response 404 []),
             jsdom_html := (\<lambda>s. archive_document)\<rparr>"

definition archive_item :: "nat \<Rightarrow> item" where
  "archive_item k =
     \<lparr>title = js ''Rumor no. '' @ dec k @ js '' ESPN'',
      url = js ''https://espn.com/'' @ dec k,
      date = js ''2025-10-'' @ dec k,
      snippet_html = js ''Rumor no. '' @ dec k @ js '' <a href=\"https://espn.com/'' @
                     dec k @ js ''\" target=\"_blank\">ESPN</a>'',
      sourceName = js ''ESPN'', lastAnchorText = js ''ESPN''\<rparr>"

section \<open>Properties of the text normalizer\<close>

lemma no_adjacent_Cons:
  "no_adjacent P (c # t) \<longleftrightarrow> (t = [] \<or> \<not> (P c \<and> P (hd t))) \<and> no_adjacent P t"
  by (cases t) auto

lemma no_adjacent_append:
  "no_adjacent P (xs @ ys) \<Longrightarrow> no_adjacent P xs \<and> no_adjacent P ys"
  by (induction P xs rule: no_adjacent.induct) (auto simp: no_adjacent_Cons)

lemma replace_runs_none: "\<forall>c\<in>set s. \<not> P c \<Longrightarrow> replace_runs P r s = s"
  by (induction s) auto

lemma replace_each_none: "\<forall>c\<in>set s. \<not> P c \<Longrightarrow> replace_each P r s = s"
  by (induction s) (auto simp: replace_each_def)

lemma dropWhile_self: "xs = [] \<or> \<not> P (hd xs) \<Longrightarrow> dropWhile P xs = xs"
  by (cases xs) auto

lemma strip_ends_fix: "s = [] \<or> (\<not> P (hd s) \<and> \<not> P (last s)) \<Longrightarrow> strip_ends P s = s"
proof -
  assume a: "s = [] \<or> (\<not> P (hd s) \<and> \<not> P (last s))"
  then have 1: "dropWhile P s = s" by (intro dropWhile_self) auto
  from a have "rev s = [] \<or> \<not> P (hd (rev s))" by (auto simp: hd_rev)
  then have "dropWhile P (rev s) = rev s" by (rule dropWhile_self)
  with 1 show ?thesis by (simp add: strip_ends_def)
qed

lemma strip_ends_none: "\<forall>c\<in>set s. \<not> P c \<Longrightarrow> strip_ends P s = s"
  by (rule strip_ends_fix) (cases s, auto)

lemma replace_runs_head:
  "s = [] \<or> \<not> P (hd s) \<Longrightarrow> replace_runs P r s = [] \<or> \<not> P (hd (replace_runs P r s))"
  by (cases s) auto

lemma replace_runs_no_adjacent: "P u \<Longrightarrow> no_adjacent P (replace_runs P [u] s)"
proof (induction P "[u]" s rule: replace_runs.induct)
  case (1 P)
  then show ?case by simp
next
  case (2 P c cs)
  show ?case
  proof (cases "P c")
    case True
    have "dropWhile P cs = [] \<or> \<not> P (hd (dropWhile P cs))"
      using hd_dropWhile by blast
    then have "replace_runs P [u] (dropWhile P cs) = [] \<or> \<not> P (hd (replace_runs P [u] (dropWhile P cs)))"
      by (rule replace_runs_head)
    with True 2 show ?thesis by (auto simp: no_adjacent_Cons)
  next
    case False
    with 2 show ?thesis by (auto simp: no_adjacent_Cons)
  qed
qed

lemma replace_runs_set: "set (replace_runs P [u] s) \<subseteq> insert u {c \<in> set s. \<not> P c}"
proof (induction P "[u]" s rule: replace_runs.induct)
  case (1 P)
  then show ?case by simp
next
  case (2 P c cs)
  have "set (dropWhile P cs) \<subseteq> set cs" by (rule set_dropWhileD[THEN subsetI]) 
  with 2 show ?case by (cases "P c") auto
qed

lemma replace_runs_fix:
  "\<forall>c\<in>set s. P c \<longrightarrow> c = u \<Longrightarrow> no_adjacent P s \<Longrightarrow> replace_runs P [u] s = s"
proof (induction P "[u]" s rule: replace_runs.induct)
  case (1 P)
  then show ?case by simp
next
  case (2 P c cs)
  show ?case
  proof (cases "P c")
    case True
    with 2(4) have "cs = [] \<or> \<not> P (hd cs)" by (auto simp: no_adjacent_Cons)
    then have d: "dropWhile P cs = cs" by (cases cs) auto
    from 2(4) have "no_adjacent P cs" by (simp add: no_adjacent_Cons)
    with 2(1)[OF True] 2(3) d True show ?thesis by auto
  next
    case False
    with 2 show ?thesis by (auto simp: no_adjacent_Cons)
  qed
qed

lemma strip_ends_decomp: "\<exists>a b. s = a @ strip_ends P s @ b"
proof -
  let ?d = "dropWhile P s"
  have 1: "s = takeWhile P s @ ?d" by simp
  have "rev ?d = takeWhile P (rev ?d) @ dropWhile P (rev ?d)" by simp
  then have "?d = rev (dropWhile P (rev ?d)) @ rev (takeWhile P (rev ?d))"
    by (metis rev_append rev_rev_ident)
  then have "s = takeWhile P s @ strip_ends P s @ rev (takeWhile P (rev ?d))"
    using 1 by (simp add: strip_ends_def)
  then show ?thesis by blast
qed

lemma strip_ends_ends:
  "strip_ends P s = [] \<or> (\<not> P (hd (strip_ends P s)) \<and> \<not> P (last (strip_ends P s)))"
proof (cases "strip_ends P s = []")
  case True then show ?thesis by simp
next
  case False
  let ?d = "dropWhile P s"
  let ?e = "dropWhile P (rev ?d)"
  have e: "?e \<noteq> []" using False by (simp add: strip_ends_def)
  then have l: "\<not> P (hd ?e)" using hd_dropWhile by blast
  have dn: "?d \<noteq> []"
    using e by (metis dropWhile.simps(1) rev.simps(1))
  then have hd: "\<not> P (hd ?d)" using hd_dropWhile by blast
  have "last (strip_ends P s) = hd ?e" using e by (simp add: strip_ends_def last_rev)
  moreover have "hd (strip_ends P s) = hd ?d"
  proof -
    have "rev ?d = takeWhile P (rev ?d) @ ?e" by simp
    then have "?d = rev ?e @ rev (takeWhile P (rev ?d))" by (metis rev_append rev_rev_ident)
    then have "hd ?d = hd (rev ?e)" using e by (metis hd_append2 rev_is_Nil_conv)
    then show ?thesis by (simp add: strip_ends_def)
  qed
  ultimately show ?thesis using l hd by simp
qed


lemma slug_char_facts:
  assumes "is_slug_alnum c \<or> c = 95"
  shows "is_ascii c" "\<not> is_space c" "\<not> is_combining c" "\<not> is_upper c" "c \<noteq> 38"
  using assms
  by (auto simp: is_slug_alnum_def is_lower_def is_digit_def is_ascii_def is_space_def
      is_combining_def is_upper_def word_le_nat_alt word_less_nat_alt)

lemma slugify_shape:
  "set (slugify w x) \<subseteq> {c. is_slug_alnum c \<or> c = 95}"
  "no_adjacent (\<lambda>c. \<not> is_slug_alnum c) (slugify w x)"
  "slugify w x = [] \<or> (hd (slugify w x) \<noteq> 95 \<and> last (slugify w x) \<noteq> 95)"
proof -
  define y where "y = replace_each (\<lambda>c. c = 38) (js '' and '')
             (toLowerCase w (replace_each is_combining [] (normalize_NFD w (clean x))))"
  define u where "u = replace_runs (\<lambda>c. \<not> is_slug_alnum c) [95] y"
  have s: "slugify w x = strip_ends (\<lambda>c. c = 95) u"
    by (simp add: slugify_def u_def y_def js_def)
  have nu: "\<not> is_slug_alnum 95"
    by (simp add: is_slug_alnum_def is_lower_def is_digit_def)
  obtain a b where ab: "u = a @ slugify w x @ b"
    using strip_ends_decomp[of u "\<lambda>c. c = 95"] s by auto
  have "set u \<subseteq> {c. is_slug_alnum c \<or> c = 95}"
    using replace_runs_set[of "\<lambda>c. \<not> is_slug_alnum c" 95 y] by (auto simp: u_def)
  then show "set (slugify w x) \<subseteq> {c. is_slug_alnum c \<or> c = 95}"
    by (subst (asm) ab) auto
  have "no_adjacent (\<lambda>c. \<not> is_slug_alnum c) u"
    unfolding u_def using nu by (rule replace_runs_no_adjacent)
  then show "no_adjacent (\<lambda>c. \<not> is_slug_alnum c) (slugify w x)"
    by (subst (asm) ab) (blast dest: no_adjacent_append)
  show "slugify w x = [] \<or> (hd (slugify w x) \<noteq> 95 \<and> last (slugify w x) \<noteq> 95)"
    unfolding s using strip_ends_ends[of "\<lambda>c. c = 95" u] by simp
qed

lemma slugify_fix:
  assumes 1: "set t \<subseteq> {c. is_slug_alnum c \<or> c = 95}"
    and 2: "no_adjacent (\<lambda>c. \<not> is_slug_alnum c) t"
    and 3: "t = [] \<or> (hd t \<noteq> 95 \<and> last t \<noteq> 95)"
  shows "slugify w t = t"
proof -
  have c: "\<And>c. c \<in> set t \<Longrightarrow> is_slug_alnum c \<or> c = 95" using 1 by auto
  have "replace_runs is_space (js '' '') t = t"
    by (rule replace_runs_none) (use c slug_char_facts(2) in blast)
  moreover have "trim t = t"
    unfolding trim_def by (rule strip_ends_none) (use c slug_char_facts(2) in blast)
  ultimately have cl: "clean t = t" by (simp add: clean_def)
  have asc: "list_all is_ascii t"
    unfolding list_all_iff using c slug_char_facts(1) by blast
  have nfd: "normalize_NFD w t = t" using asc by (simp add: normalize_NFD_def)
  have comb: "replace_each is_combining [] t = t"
    by (rule replace_each_none) (use c slug_char_facts(3) in blast)
  have "map lower_ascii t = t"
    by (rule map_idI) (use c slug_char_facts(4) in \<open>auto simp: lower_ascii_def\<close>)
  then have low: "toLowerCase w t = t" using asc by (simp add: toLowerCase_def)
  have amp: "replace_each (\<lambda>c. c = 38) (js '' and '') t = t"
    by (rule replace_each_none) (use c slug_char_facts(5) in blast)
  have "\<forall>c\<in>set t. \<not> is_slug_alnum c \<longrightarrow> c = 95" using c by blast
  then have rr: "replace_runs (\<lambda>c. \<not> is_slug_alnum c) [95] t = t"
    using 2 by (rule replace_runs_fix)
  have se: "strip_ends (\<lambda>c. c = 95) t = t"
    by (rule strip_ends_fix) (use 3 in auto)
  show ?thesis
    by (simp add: slugify_def cl nfd comb low amp) (simp add: js_def rr se)
qed

text \<open>
  C6. \<open>slugify\<close> is idempotent: on every string, whatever the Unicode tables give on
  non-ASCII input, slugifying a slug returns it unchanged; and
  \<open>slugify("New York Knicks")\<close> is \<open>"new_york_knicks"\<close>, \<open>slugify("76ers")\<close> is \<open>"76ers"\<close>.
\<close>

theorem slugify_idempotent:
  "slugify w (slugify w x) = slugify w x \<and>
   slugify w (js ''New York Knicks'') = js ''new_york_knicks'' \<and>
   slugify w (js ''76ers'') = js ''76ers''"
proof (intro conjI)
  show "slugify w (slugify w x) = slugify w x"
    by (rule slugify_fix) (rule slugify_shape)+
  show "slugify w (js ''New York Knicks'') = js ''new_york_knicks''" by code_simp
  show "slugify w (js ''76ers'') = js ''76ers''" by code_simp
qed
section \<open>Merge, dedup, rank and window\<close>

lemma set_insert_by: "set (insert_by cmp x ys) = insert x (set ys)"
  by (induction ys) auto

lemma set_array_sort_aux:
  "set (foldl (\<lambda>acc x. insert_by cmp x acc) acc xs) = set acc \<union> set xs"
  by (induction xs arbitrary: acc) (auto simp: set_insert_by)

lemma set_array_sort: "set (array_sort cmp xs) = set xs"
  by (simp add: array_sort_def set_array_sort_aux)

lemma sorted_insert_by:
  "sorted_wrt (\<lambda>a b. date b \<le> date a) ys \<Longrightarrow>
   sorted_wrt (\<lambda>a b. date b \<le> date a) (insert_by by_date_desc x ys)"
  by (induction ys) (auto simp: set_insert_by by_date_desc_def split: if_splits)

lemma sorted_array_sort_aux:
  "sorted_wrt (\<lambda>a b. date b \<le> date a) acc \<Longrightarrow>
   sorted_wrt (\<lambda>a b. date b \<le> date a) (foldl (\<lambda>acc x. insert_by by_date_desc x acc) acc xs)"
  by (induction xs arbitrary: acc) (auto simp: sorted_insert_by)

lemma sorted_array_sort:
  "sorted_wrt (\<lambda>a b. date b \<le> date a) (array_sort by_date_desc xs)"
  by (simp add: array_sort_def sorted_array_sort_aux)

lemma sorted_wrt_subseq: "subseq ys xs \<Longrightarrow> sorted_wrt R xs \<Longrightarrow> sorted_wrt R ys"
proof (induction ys xs rule: list_emb.induct)
  case (list_emb_Nil ys)
  then show ?case by simp
next
  case (list_emb_Cons xs ys y)
  then show ?case by simp
next
  case (list_emb_Cons2 x y xs ys)
  have "\<And>z. z \<in> set xs \<Longrightarrow> z \<in> set ys"
    using list_emb_Cons2(2) by (auto elim: list_emb_set)
  with list_emb_Cons2 show ?case by auto
qed

text \<open>
  The invariant of the dedup loop: \<open>seen\<close> holds the keys of \<open>out\<close>, which are distinct; the
  loop appends a subsequence of its input, one item for every key not seen before, and
  that item is the first of the input with its key.
\<close>

lemma dedup_loop_spec:
  assumes "seen = key_of n ` set out" "distinct (map (key_of n) out)"
  shows "\<exists>kept. fst (dedup_loop n xs out seen) = out @ kept \<and>
           snd (dedup_loop n xs out seen) = key_of n ` set (out @ kept) \<and>
           subseq kept xs \<and>
           distinct (map (key_of n) (out @ kept)) \<and>
           key_of n ` set (out @ kept) = key_of n ` (set out \<union> set xs) \<and>
           (\<forall>it \<in> set kept. \<exists>pre post. xs = pre @ it # post \<and>
                key_of n it \<notin> key_of n ` (set out \<union> set pre))"
  using assms
proof (induction xs arbitrary: out seen)
  case Nil
  then show ?case by simp
next
  case (Cons x xs)
  show ?case
  proof (cases "key_of n x \<in> seen")
    case True
    from Cons.IH[OF Cons.prems] obtain kept where k:
      "fst (dedup_loop n xs out seen) = out @ kept"
      "snd (dedup_loop n xs out seen) = key_of n ` set (out @ kept)"
      "subseq kept xs" "distinct (map (key_of n) (out @ kept))"
      "key_of n ` set (out @ kept) = key_of n ` (set out \<union> set xs)"
      "\<forall>it \<in> set kept. \<exists>pre post. xs = pre @ it # post \<and>
                key_of n it \<notin> key_of n ` (set out \<union> set pre)"
      by blast
    have "\<forall>it \<in> set kept. \<exists>pre post. x # xs = pre @ it # post \<and>
                key_of n it \<notin> key_of n ` (set out \<union> set pre)"
    proof
      fix it assume "it \<in> set kept"
      with k(6) obtain pre post where p: "xs = pre @ it # post"
        "key_of n it \<notin> key_of n ` (set out \<union> set pre)" by blast
      have "x # xs = (x # pre) @ it # post" using p(1) by simp
      moreover have "key_of n it \<notin> key_of n ` (set out \<union> set (x # pre))"
        using p(2) True Cons.prems(1) by auto
      ultimately show "\<exists>pre post. x # xs = pre @ it # post \<and>
                key_of n it \<notin> key_of n ` (set out \<union> set pre)" by blast
    qed
    moreover have "key_of n ` set (out @ kept) = key_of n ` (set out \<union> set (x # xs))"
      using k(5) True Cons.prems(1) by auto
    ultimately show ?thesis using True k by (intro exI[of _ kept]) auto
  next
    case False
    have p1: "insert (key_of n x) seen = key_of n ` set (out @ [x])"
      using Cons.prems(1) by auto
    have p2: "distinct (map (key_of n) (out @ [x]))"
      using Cons.prems False by auto
    from Cons.IH[OF p1 p2] obtain kept where k:
      "fst (dedup_loop n xs (out @ [x]) (insert (key_of n x) seen)) = (out @ [x]) @ kept"
      "snd (dedup_loop n xs (out @ [x]) (insert (key_of n x) seen)) = key_of n ` set ((out @ [x]) @ kept)"
      "subseq kept xs" "distinct (map (key_of n) ((out @ [x]) @ kept))"
      "key_of n ` set ((out @ [x]) @ kept) = key_of n ` (set (out @ [x]) \<union> set xs)"
      "\<forall>it \<in> set kept. \<exists>pre post. xs = pre @ it # post \<and>
                key_of n it \<notin> key_of n ` (set (out @ [x]) \<union> set pre)"
      by blast
    have "\<forall>it \<in> set (x # kept). \<exists>pre post. x # xs = pre @ it # post \<and>
                key_of n it \<notin> key_of n ` (set out \<union> set pre)"
    proof
      fix it assume "it \<in> set (x # kept)"
      then consider "it = x" | "it \<in> set kept" by auto
      then show "\<exists>pre post. x # xs = pre @ it # post \<and>
                key_of n it \<notin> key_of n ` (set out \<union> set pre)"
      proof cases
        case 1
        have "x # xs = [] @ it # xs" using 1 by simp
        moreover have "key_of n it \<notin> key_of n ` (set out \<union> set [])"
          using 1 False Cons.prems(1) by auto
        ultimately show ?thesis by blast
      next
        case 2
        with k(6) obtain pre post where p: "xs = pre @ it # post"
          "key_of n it \<notin> key_of n ` (set (out @ [x]) \<union> set pre)" by blast
        have "x # xs = (x # pre) @ it # post" using p(1) by simp
        moreover have "key_of n it \<notin> key_of n ` (set out \<union> set (x # pre))"
          using p(2) by auto
        ultimately show ?thesis by blast
      qed
    qed
    moreover have "key_of n ` set (out @ x # kept) = key_of n ` (set out \<union> set (x # xs))"
      using k(5) by auto
    ultimately show ?thesis using False k by (intro exI[of _ "x # kept"]) auto
  qed
qed

lemma dedup_loop_from_empty:
  "\<exists>kept. fst (dedup_loop n xs [] {}) = kept \<and> subseq kept xs \<and>
     distinct (map (key_of n) kept) \<and> key_of n ` set kept = key_of n ` set xs \<and>
     (\<forall>it \<in> set kept. \<exists>pre post. xs = pre @ it # post \<and> key_of n it \<notin> key_of n ` set pre)"
  using dedup_loop_spec[of "{}" n "[]" xs] by auto

text \<open>
  The sort puts an item before the items of the same date that were there before it: among
  the items of one date the sorted list is the merged list reversed. So the first item of the
  sorted list with a given key is, in the merged list, the last of those items with that key
  whose date is the greatest.
\<close>

lemma filter_insert_by_date:
  "filter (\<lambda>y. date y = d) (insert_by by_date_desc x ys) =
     (if date x = d then x # filter (\<lambda>y. date y = d) ys else filter (\<lambda>y. date y = d) ys)"
  by (induction ys) (auto simp: by_date_desc_def)

lemma filter_array_sort_aux:
  "filter (\<lambda>y. date y = d) (foldl (\<lambda>acc x. insert_by by_date_desc x acc) acc xs) =
     rev (filter (\<lambda>y. date y = d) xs) @ filter (\<lambda>y. date y = d) acc"
  by (induction xs arbitrary: acc) (auto simp: filter_insert_by_date)

lemma filter_array_sort:
  "filter (\<lambda>y. date y = d) (array_sort by_date_desc xs) = rev (filter (\<lambda>y. date y = d) xs)"
  by (simp add: array_sort_def filter_array_sort_aux)

lemma last_of_filter_split:
  "filter P xs = fs @ [y] \<Longrightarrow> \<exists>p q. xs = p @ y # q \<and> (\<forall>x \<in> set q. \<not> P x)"
proof (induction xs arbitrary: fs rule: rev_induct)
  case Nil
  then show ?case by simp
next
  case (snoc z xs)
  show ?case
  proof (cases "P z")
    case True
    then have "z = y" using snoc.prems by simp
    then have "xs @ [z] = xs @ y # [] \<and> (\<forall>x \<in> set []. \<not> P x)" by simp
    then show ?thesis by blast
  next
    case False
    then have "filter P xs = fs @ [y]" using snoc.prems by simp
    then obtain p q where pq: "xs = p @ y # q" "\<forall>x \<in> set q. \<not> P x"
      using snoc.IH by blast
    have "xs @ [z] = p @ y # (q @ [z])" using pq(1) by simp
    moreover have "\<forall>x \<in> set (q @ [z]). \<not> P x" using pq(2) False by simp
    ultimately show ?thesis by blast
  qed
qed

lemma first_sorted_last_arrival:
  assumes s: "array_sort by_date_desc merged = pre @ it # post"
    and n: "K it \<notin> K ` set pre"
  shows "\<exists>p q. merged = p @ it # q \<and>
           (\<forall>x \<in> set merged. K x = K it \<longrightarrow> date x \<le> date it) \<and>
           (\<forall>x \<in> set q. K x = K it \<longrightarrow> date x < date it)"
proof -
  let ?S = "array_sort by_date_desc merged"
  define P where "P = (\<lambda>x. date x = date it \<and> K x = K it)"
  have "sorted_wrt (\<lambda>a b. date b \<le> date a) (pre @ it # post)"
    using sorted_array_sort[of merged] s by simp
  then have below: "\<forall>x \<in> set post. date x \<le> date it"
    by (simp add: sorted_wrt_append)
  have le: "\<forall>x \<in> set merged. K x = K it \<longrightarrow> date x \<le> date it"
  proof (intro ballI impI)
    fix x assume x: "x \<in> set merged" "K x = K it"
    then have "x \<in> set (pre @ it # post)" using set_array_sort[of by_date_desc merged] s by simp
    moreover have "x \<notin> set pre"
    proof
      assume "x \<in> set pre"
      then have "K x \<in> K ` set pre" by (rule imageI)
      then show False using x(2) n by simp
    qed
    ultimately have "x = it \<or> x \<in> set post" by auto
    then show "date x \<le> date it" using below by auto
  qed
  have split: "filter P xs = filter (\<lambda>x. K x = K it) (filter (\<lambda>y. date y = date it) xs)" for xs
    by (simp add: P_def conj_commute)
  have f: "filter P ?S = rev (filter P merged)"
    unfolding split filter_array_sort by (simp add: rev_filter)
  have "P it" by (simp add: P_def)
  moreover have "\<forall>x \<in> set pre. \<not> P x"
  proof
    fix x assume "x \<in> set pre"
    then have "K x \<in> K ` set pre" by (rule imageI)
    then have "K x \<noteq> K it" using n by auto
    then show "\<not> P x" by (simp add: P_def)
  qed
  ultimately have "filter P (pre @ it # post) = it # filter P post" by simp
  then have "filter P ?S = it # filter P post" unfolding s .
  then have "filter P merged = rev (filter P post) @ [it]"
    using f rev_swap[of "it # filter P post" "filter P merged"] by simp
  then obtain p q where pq: "merged = p @ it # q" "\<forall>x \<in> set q. \<not> P x"
    using last_of_filter_split[of P merged "rev (filter P post)" it] by blast
  have "\<forall>x \<in> set q. K x = K it \<longrightarrow> date x < date it"
  proof (intro ballI impI)
    fix x assume x: "x \<in> set q" "K x = K it"
    then have "date x \<noteq> date it" using pq(2) by (auto simp: P_def)
    moreover have "x \<in> set merged" using x(1) pq(1) by simp
    then have "date x \<le> date it" using le x(2) by blast
    ultimately show "date x < date it" by simp
  qed
  then have "merged = p @ it # q \<and>
           (\<forall>x \<in> set merged. K x = K it \<longrightarrow> date x \<le> date it) \<and>
           (\<forall>x \<in> set q. K x = K it \<longrightarrow> date x < date it)"
    using pq(1) le by (intro conjI)
  then show ?thesis by (intro exI)
qed

text \<open>
  C1, as the code has it. The key of the dedup step is the string
  \<open>date::title[0,120)::url\<close>. For every list of candidate items, the output of the rank and
  dedup step holds exactly one item for every key string of the input (the output's key
  strings are distinct, and they are those of the input). The handler sorts before it
  removes duplicates, so the item kept for a key string is the first one with it in the
  sorted list; in the merged list that is, of the items with the key string, the last one
  among those of the greatest date. The output is ordered by non-increasing date, the empty
  date being the least one.
\<close>

theorem rank_dedup_one_per_key_string:
  "distinct (map (key_of 120) (rank_dedup merged)) \<and>
   key_of 120 ` set (rank_dedup merged) = key_of 120 ` set merged \<and>
   (\<forall>it \<in> set (rank_dedup merged). \<exists>pre post.
      array_sort by_date_desc merged = pre @ it # post \<and>
      key_of 120 it \<notin> key_of 120 ` set pre) \<and>
   (\<forall>it \<in> set (rank_dedup merged). \<exists>p q.
      merged = p @ it # q \<and>
      (\<forall>x \<in> set merged. key_of 120 x = key_of 120 it \<longrightarrow> date x \<le> date it) \<and>
      (\<forall>x \<in> set q. key_of 120 x = key_of 120 it \<longrightarrow> date x < date it)) \<and>
   sorted_wrt (\<lambda>a b. date b \<le> date a) (rank_dedup merged) \<and>
   (\<forall>it \<in> set (rank_dedup merged). [] \<le> date it)"
proof -
  let ?s = "array_sort by_date_desc merged"
  obtain kept where k: "fst (dedup_loop 120 ?s [] {}) = kept" "subseq kept ?s"
    "distinct (map (key_of 120) kept)" "key_of 120 ` set kept = key_of 120 ` set ?s"
    "\<forall>it \<in> set kept. \<exists>pre post. ?s = pre @ it # post \<and> key_of 120 it \<notin> key_of 120 ` set pre"
    using dedup_loop_from_empty[of 120 ?s] by blast
  have r: "rank_dedup merged = kept" using k(1) by (simp add: rank_dedup_def)
  have "sorted_wrt (\<lambda>a b. date b \<le> date a) kept"
    using k(2) sorted_array_sort by (rule sorted_wrt_subseq)
  moreover have "\<forall>it \<in> set kept. \<exists>p q.
      merged = p @ it # q \<and>
      (\<forall>x \<in> set merged. key_of 120 x = key_of 120 it \<longrightarrow> date x \<le> date it) \<and>
      (\<forall>x \<in> set q. key_of 120 x = key_of 120 it \<longrightarrow> date x < date it)"
    using k(5) first_sorted_last_arrival[where K="key_of 120" and merged=merged] by blast
  ultimately show ?thesis
    unfolding r using k(3,4,5) by (simp add: set_array_sort)
qed

theorem rank_dedup_one_per_key_string_witness:
  "map date (rank_dedup [sample_item 3, sample_item 7, sample_item 3, sample_item 5]) =
     [js ''2025-10-07'', js ''2025-10-05'', js ''2025-10-03''] \<and>
   distinct (map (key_of 120)
     (rank_dedup [sample_item 3, sample_item 7, sample_item 3, sample_item 5]))"
proof -
  have "map date (rank_dedup [sample_item 3, sample_item 7, sample_item 3, sample_item 5]) =
     [js ''2025-10-07'', js ''2025-10-05'', js ''2025-10-03'']"
    by code_simp
  then show ?thesis
    using rank_dedup_one_per_key_string
      [of "[sample_item 3, sample_item 7, sample_item 3, sample_item 5]"]
    by blast
qed

text \<open>
  The items \<open>colliding_a\<close> and \<open>colliding_b\<close> are what the extractor makes of the two
  paragraphs of \<open>colliding_main\<close>, and \<open>duplicate_first\<close> and \<open>duplicate_second\<close> what it makes
  of the paragraphs of \<open>duplicate_main_1\<close> and \<open>duplicate_main_2\<close>.
\<close>

lemma colliding_items_extracted:
  "scan_nodes (html_item offline) 80 (querySelectorAll offline (js ''*'') colliding_main) [] [] =
     [colliding_a, colliding_b]"
  by code_simp

lemma duplicate_items_extracted:
  "scan_nodes (html_item offline) 80 (querySelectorAll offline (js ''*'') duplicate_main_1) [] [] =
     [duplicate_first] \<and>
   scan_nodes (html_item offline) 80 (querySelectorAll offline (js ''*'') duplicate_main_2) [] [] =
     [duplicate_second]"
  by code_simp

text \<open>
  C1 as stated fails twice. The two items \<open>colliding_a\<close> and \<open>colliding_b\<close> differ in the
  triple (date, title prefix, url), and the output holds an item for one of the two triples
  only. The two items \<open>duplicate_first\<close> and \<open>duplicate_second\<close> have one key, and of the
  merged list that holds them in this order the output keeps the second, not the first
  occurrence.
\<close>

theorem rank_dedup_triple_counterexample:
  "key_triple colliding_a \<noteq> key_triple colliding_b \<and>
   key_triple ` set (rank_dedup [colliding_a, colliding_b]) \<noteq>
     key_triple ` set [colliding_a, colliding_b] \<and>
   key_triple duplicate_first = key_triple duplicate_second \<and>
   duplicate_first \<noteq> duplicate_second \<and>
   rank_dedup [duplicate_first, duplicate_second] = [duplicate_second]"
  by code_simp

text \<open>
  The window \<open>xs.slice(1, hi)\<close> of a list without repetition that has at least \<open>hi\<close>
  items, and the items of the answer of the link-preserving handlers: the payloads of the
  window \<open>dedup.slice(lo, hi)\<close> of the ranked list.
\<close>

lemma slice_from_one:
  assumes d: "distinct xs" and pos: "1 \<le> hi" and len: "hi \<le> length xs"
  shows "slice 1 hi xs = map (\<lambda>i. xs ! i) [1..<hi] \<and> xs ! 0 \<notin> set (slice 1 hi xs)"
proof -
  obtain n where hi: "hi = Suc n" using pos by (cases hi) auto
  have 1: "slice 1 (Suc n) xs = take n (tl xs)"
    by (simp add: slice_def drop_Suc)
  have u: "[1..<Suc n] = map Suc [0..<n]"
    by (simp add: map_Suc_upt del: upt_Suc)
  have "take n (tl xs) = map (\<lambda>i. tl xs ! i) [0..<n]"
    using len hi by (intro nth_equalityI) auto
  also have "\<dots> = map (\<lambda>i. xs ! Suc i) [0..<n]"
    using len hi by (intro map_cong refl) (auto simp: nth_tl)
  also have "\<dots> = map (\<lambda>i. xs ! i) [1..<Suc n]"
    unfolding u by (simp add: comp_def)
  finally have 2: "take n (tl xs) = map (\<lambda>i. xs ! i) [1..<Suc n]" .
  obtain y ys where x: "xs = y # ys" using len hi by (cases xs) auto
  then have "y \<notin> set (take n ys)" using d by (auto dest: in_set_takeD)
  then have "xs ! 0 \<notin> set (take n (tl xs))" using x by simp
  then show ?thesis unfolding hi using 1 2 by (simp only: simp_thms)
qed

lemma rank_dedup_distinct: "distinct (rank_dedup merged)"
proof -
  obtain kept where k: "fst (dedup_loop 120 (array_sort by_date_desc merged) [] {}) = kept"
    "distinct (map (key_of 120) kept)"
    using dedup_loop_from_empty[of 120 "array_sort by_date_desc merged"] by blast
  then show ?thesis by (simp add: rank_dedup_def distinct_map)
qed

lemma handler_window_items:
  assumes "param_trim (q ev) = qRaw" and "qRaw \<noteq> []"
    and "subjects_of qRaw = subjects" and "map (slugify w) subjects = slugs"
    and "fst (collect_all w slugs []
               [js ''subjects'' \<mapsto> Strs subjects, js ''slugs'' \<mapsto> Strs slugs]) = Inr merged"
  shows "statusCode (fst (handler_window lo hi pay w ev)) = 200 \<and>
         items_of (body (fst (handler_window lo hi pay w ev))) =
           Some (map pay (slice lo hi (rank_dedup merged)))"
proof -
  obtain dbg1 log where
    "collect_all w slugs [] [js ''subjects'' \<mapsto> Strs subjects, js ''slugs'' \<mapsto> Strs slugs] =
       (Inr merged, dbg1, log)"
    using assms(5)
    by (cases "collect_all w slugs [] [js ''subjects'' \<mapsto> Strs subjects, js ''slugs'' \<mapsto> Strs slugs]")
       auto
  then show ?thesis
    using assms(1-4) by (simp add: handler_window_def Let_def json_def)
qed

text \<open>
  C2. In the skip-newest variants the handler ranks and deduplicates what it collected and
  answers with the payloads of the window \<open>dedup.slice(1, 9)\<close> (eight-item variant) or
  \<open>dedup.slice(1, 6)\<close> (five-item variant). Whenever the request names a subject and the
  collection succeeds, the answer has status 200; when the ranked list \<open>dedup\<close> has at least
  \<open>N + 1\<close> items, the window is exactly the items at positions \<open>1..N\<close> of that list, the item
  at position 0 is not in it, and the items of the answer are the payloads of the items at
  positions \<open>1..N\<close>, in that order.
\<close>

theorem window_skips_newest:
  assumes "param_trim (q ev) = qRaw" and "qRaw \<noteq> []"
    and "subjects_of qRaw = subjects" and "map (slugify w) subjects = slugs"
    and "fst (collect_all w slugs []
               [js ''subjects'' \<mapsto> Strs subjects, js ''slugs'' \<mapsto> Strs slugs]) = Inr merged"
    and "rank_dedup merged = dedup"
  shows "statusCode (fst (handler_eight w ev)) = 200 \<and>
         items_of (body (fst (handler_eight w ev))) = Some (map (payload8 w) (slice 1 9 dedup)) \<and>
         (9 \<le> length dedup \<longrightarrow>
            slice 1 9 dedup = map (\<lambda>i. dedup ! i) [1..<9] \<and>
            dedup ! 0 \<notin> set (slice 1 9 dedup) \<and>
            items_of (body (fst (handler_eight w ev))) =
              Some (map (\<lambda>i. payload8 w (dedup ! i)) [1..<9])) \<and>
         statusCode (fst (handler_five w ev)) = 200 \<and>
         items_of (body (fst (handler_five w ev))) = Some (map payload5 (slice 1 6 dedup)) \<and>
         (6 \<le> length dedup \<longrightarrow>
            slice 1 6 dedup = map (\<lambda>i. dedup ! i) [1..<6] \<and>
            dedup ! 0 \<notin> set (slice 1 6 dedup) \<and>
            items_of (body (fst (handler_five w ev))) =
              Some (map (\<lambda>i. payload5 (dedup ! i)) [1..<6]))"
proof -
  have d: "distinct dedup" using assms(6) rank_dedup_distinct[of merged] by simp
  have h8: "statusCode (fst (handler_eight w ev)) = 200 \<and>
            items_of (body (fst (handler_eight w ev))) = Some (map (payload8 w) (slice 1 9 dedup))"
    unfolding handler_eight_def using handler_window_items[OF assms(1-5)] assms(6) by simp
  have h5: "statusCode (fst (handler_five w ev)) = 200 \<and>
            items_of (body (fst (handler_five w ev))) = Some (map payload5 (slice 1 6 dedup))"
    unfolding handler_five_def using handler_window_items[OF assms(1-5)] assms(6) by simp
  have w8: "slice 1 9 dedup = map (\<lambda>i. dedup ! i) [1..<9] \<and> dedup ! 0 \<notin> set (slice 1 9 dedup)"
    if "9 \<le> length dedup"
    by (rule slice_from_one[OF d _ that]) simp
  have w5: "slice 1 6 dedup = map (\<lambda>i. dedup ! i) [1..<6] \<and> dedup ! 0 \<notin> set (slice 1 6 dedup)"
    if "6 \<le> length dedup"
    by (rule slice_from_one[OF d _ that]) simp
  have m8: "items_of (body (fst (handler_eight w ev))) =
              Some (map (\<lambda>i. payload8 w (dedup ! i)) [1..<9])" if "9 \<le> length dedup"
  proof -
    have "map (payload8 w) (slice 1 9 dedup) = map (payload8 w) (map (\<lambda>i. dedup ! i) [1..<9])"
      using w8[OF that] by simp
    then show ?thesis using h8 by (simp add: comp_def)
  qed
  have m5: "items_of (body (fst (handler_five w ev))) =
              Some (map (\<lambda>i. payload5 (dedup ! i)) [1..<6])" if "6 \<le> length dedup"
  proof -
    have "map payload5 (slice 1 6 dedup) = map payload5 (map (\<lambda>i. dedup ! i) [1..<6])"
      using w5[OF that] by simp
    then show ?thesis using h5 by (simp add: comp_def)
  qed
  show ?thesis using h8 h5 w8 w5 m8 m5 by blast
qed

text \<open>
  On the tag page of \<open>archive\<close> the handlers collect the ten items of October 19 to 10; the
  eight-item variant answers with the payloads of the items of October 18 to 11 and the
  five-item variant with those of October 18 to 14.
\<close>

theorem window_skips_newest_witness:
  "param_trim (q (demo_event None)) = js ''Jalen Brunson'' \<and>
   fst (collect_all archive [js ''jalen_brunson''] []
         [js ''subjects'' \<mapsto> Strs [js ''Jalen Brunson''],
          js ''slugs'' \<mapsto> Strs [js ''jalen_brunson'']]) = Inr (map archive_item (rev [10..<20])) \<and>
   rank_dedup (map archive_item (rev [10..<20])) = map archive_item (rev [10..<20]) \<and>
   items_of (body (fst (handler_eight archive (demo_event None)))) =
     Some (map (\<lambda>i. payload8 archive (map archive_item (rev [10..<20]) ! i)) [1..<9]) \<and>
   items_of (body (fst (handler_five archive (demo_event None)))) =
     Some (map (\<lambda>i. payload5 (map archive_item (rev [10..<20]) ! i)) [1..<6]) \<and>
   map archive_item (rev [10..<20]) ! 0 \<notin> set (slice 1 9 (map archive_item (rev [10..<20])))"
proof -
  have 1: "param_trim (q (demo_event None)) = js ''Jalen Brunson''" by code_simp
  have 2: "js ''Jalen Brunson'' \<noteq> []" by code_simp
  have 3: "subjects_of (js ''Jalen Brunson'') = [js ''Jalen Brunson'']" by code_simp
  have 4: "map (slugify archive) [js ''Jalen Brunson''] = [js ''jalen_brunson'']" by code_simp
  have 5: "fst (collect_all archive [js ''jalen_brunson''] []
             [js ''subjects'' \<mapsto> Strs [js ''Jalen Brunson''],
              js ''slugs'' \<mapsto> Strs [js ''jalen_brunson'']]) = Inr (map archive_item (rev [10..<20]))"
    by code_simp
  have 6: "rank_dedup (map archive_item (rev [10..<20])) = map archive_item (rev [10..<20])"
    by code_simp
  have l: "9 \<le> length (map archive_item (rev [10..<20]))"
    "6 \<le> length (map archive_item (rev [10..<20]))" by simp_all
  show ?thesis
    using window_skips_newest[OF 1 2 3 4 5 6] 1 5 6 l by blast
qed

section \<open>The markup-preserving snippet\<close>

lemma remove_others:
  "foldl (\<lambda>b n. if n \<noteq> h then removeAttribute n b else b) b ns =
   filter (\<lambda>(k, v). k = h \<or> k \<notin> set ns) b"
proof (induction ns arbitrary: b)
  case Nil
  then show ?case by simp
next
  case (Cons n ns)
  have "filter (\<lambda>(k, v). k = h \<or> k \<notin> set ns) (removeAttribute n b) =
        filter (\<lambda>(k, v). k = h \<or> k \<notin> set (n # ns)) b" if "n \<noteq> h"
    using that unfolding removeAttribute_def filter_filter
    by (intro filter_cong refl) auto
  moreover have "filter (\<lambda>(k, v). k = h \<or> k \<notin> set ns) b =
        filter (\<lambda>(k, v). k = h \<or> k \<notin> set (n # ns)) b" if "n = h"
    using that by (intro filter_cong refl) auto
  ultimately show ?case using Cons.IH by simp
qed

lemma remove_all_but_href:
  "foldl (\<lambda>b n. if n \<noteq> h then removeAttribute n b else b) a (map fst a) =
   filter (\<lambda>(k, v). k = h) a"
  unfolding remove_others by (intro filter_cong refl) force

lemma map_of_filter_key: "map_of (filter (\<lambda>(k, v). k = h) a) h = map_of a h"
  by (induction a) auto

lemma anchor_attributes_eq:
  "anchor_attributes a =
     filter (\<lambda>(k, v). k = js ''href'') a @
     (if map_of a (js ''href'') \<noteq> None \<and> map_of a (js ''href'') \<noteq> Some []
      then [(js ''target'', js ''_blank'')] else [])"
proof -
  have ne: "js ''target'' \<noteq> js ''href''" "js ''href'' \<noteq> js ''rel''" "js ''target'' \<noteq> js ''rel''"
    by (simp_all add: js_def)
  have t: "js ''target'' \<notin> fst ` set (filter (\<lambda>(k, v). k = js ''href'') a)"
    using ne by auto
  have r: "removeAttribute (js ''rel'') (filter (\<lambda>(k, v). k = js ''href'') a) =
           filter (\<lambda>(k, v). k = js ''href'') a"
    unfolding removeAttribute_def filter_filter using ne by (intro filter_cong refl) auto
  show ?thesis
    unfolding anchor_attributes_def Let_def remove_all_but_href
    using t r ne by (simp add: setAttribute_def removeAttribute_def)
qed

lemma update_at_Cons2:
  "p \<noteq> [] \<Longrightarrow> i < length F \<Longrightarrow> F ! i = Elem t a cs \<Longrightarrow>
   update_at f (i # p) F = F[i := Elem t a (update_at f p cs)]"
  by (cases p) auto

lemma update_at_not_element:
  "i < length F \<Longrightarrow> \<not> is_element (F ! i) \<Longrightarrow> update_at sanitize_element (i # p) F = F"
  by (cases p; cases "F ! i") (auto simp: list_update_same_conv)

lemma fold_below_text:
  "i < length F \<Longrightarrow> \<not> is_element (F ! i) \<Longrightarrow>
   foldl (\<lambda>forest path. update_at sanitize_element path forest) F (map ((#) i) P) = F"
  by (induction P) (auto simp: update_at_not_element)

lemma fold_below_element:
  "i < length F \<Longrightarrow> F ! i = Elem t a cs \<Longrightarrow> \<forall>p \<in> set P. p \<noteq> [] \<Longrightarrow>
   foldl (\<lambda>forest path. update_at f path forest) F (map ((#) i) P) =
   F[i := Elem t a (foldl (\<lambda>forest path. update_at f path forest) cs P)]"
proof (induction P arbitrary: F cs)
  case Nil
  have "F[i := Elem t a cs] = F" using Nil(2) list_update_id[of F i] by simp
  then show ?case by simp
next
  case (Cons p P)
  let ?F = "F[i := Elem t a (update_at f p cs)]"
  have 1: "update_at f (i # p) F = ?F"
    using Cons.prems by (intro update_at_Cons2) auto
  have "foldl (\<lambda>forest path. update_at f path forest) ?F (map ((#) i) P) =
        ?F[i := Elem t a (foldl (\<lambda>forest path. update_at f path forest) (update_at f p cs) P)]"
    using Cons.prems by (intro Cons.IH) auto
  then show ?case using 1 by simp
qed

lemma child_paths_nonempty: "p \<in> set (child_paths i ks) \<Longrightarrow> p \<noteq> []"
  by (induction i ks rule: child_paths.induct) auto

lemma sanitize_loop_unwrapped:
  "i = length pre \<Longrightarrow>
   foldl (\<lambda>forest path. update_at sanitize_element path forest) (pre @ ks) (child_paths i ks) =
   pre @ map unwrapped ks"
proof (induction i ks arbitrary: pre rule: child_paths.induct)
  case (1 i)
  then show ?case by simp
next
  case (2 i t a cs ks)
  let ?step = "\<lambda>forest path. update_at sanitize_element path forest"
  let ?F = "pre @ Elem t a cs # ks"
  have i: "i < length ?F" "?F ! i = Elem t a cs" using 2(3) by auto
  have first: "update_at sanitize_element [i] ?F = pre @ sanitize_element (Elem t a cs) # ks"
    using 2(3) by simp
  have below: "foldl ?step (pre @ sanitize_element (Elem t a cs) # ks)
                 (map ((#) i) (child_paths 0 cs)) = pre @ unwrapped (Elem t a cs) # ks"
  proof (cases "t = js ''a''")
    case True
    let ?G = "pre @ Elem t (anchor_attributes a) cs # ks"
    have "foldl ?step ?G (map ((#) i) (child_paths 0 cs)) =
          ?G[i := Elem t (anchor_attributes a) (foldl ?step cs (child_paths 0 cs))]"
      using 2(3) by (intro fold_below_element) (auto simp: child_paths_nonempty)
    moreover have "foldl ?step cs (child_paths 0 cs) = map unwrapped cs"
      using 2(1)[of "[]"] by simp
    ultimately show ?thesis using True 2(3) by simp
  next
    case False
    let ?G = "pre @ Text (textContent (Elem t a cs)) # ks"
    have "foldl ?step ?G (map ((#) i) (child_paths 0 cs)) = ?G"
      using 2(3) by (intro fold_below_text) auto
    then show ?thesis using False by simp
  qed
  have rest: "foldl ?step ((pre @ [unwrapped (Elem t a cs)]) @ ks) (child_paths (Suc i) ks) =
              (pre @ [unwrapped (Elem t a cs)]) @ map unwrapped ks"
    using 2(3) by (intro 2(2)) simp
  have "foldl ?step ?F (child_paths i (Elem t a cs # ks)) =
        foldl ?step (foldl ?step (update_at sanitize_element [i] ?F)
          (map ((#) i) (child_paths 0 cs))) (child_paths (Suc i) ks)"
    by simp
  also have "\<dots> = foldl ?step (pre @ unwrapped (Elem t a cs) # ks) (child_paths (Suc i) ks)"
    unfolding first below ..
  also have "\<dots> = pre @ map unwrapped (Elem t a cs # ks)"
    using rest by simp
  finally show ?case .
next
  case (3 i v ks)
  have "foldl (\<lambda>forest path. update_at sanitize_element path forest)
          ((pre @ [Text v]) @ ks) (child_paths (Suc i) ks) = (pre @ [Text v]) @ map unwrapped ks"
    using 3(2) by (intro 3(1)) simp
  then show ?case by simp
next
  case (4 i v ks)
  have "foldl (\<lambda>forest path. update_at sanitize_element path forest)
          ((pre @ [Comment v]) @ ks) (child_paths (Suc i) ks) = (pre @ [Comment v]) @ map unwrapped ks"
    using 4(2) by (intro 4(1)) simp
  then show ?case by simp
qed

lemma sanitized_children_unwrapped: "sanitized_children p = map unwrapped (children p)"
  using sanitize_loop_unwrapped[of 0 "[]" "children p"] by (simp add: sanitized_children_def)

lemma anchor_attributes_shape:
  "list_all (\<lambda>(k, v). k = js ''href'' \<or> (k = js ''target'' \<and> v = js ''_blank'')) (anchor_attributes a)"
  "(js ''target'' \<in> fst ` set (anchor_attributes a)) =
     (map_of (anchor_attributes a) (js ''href'') \<noteq> None \<and>
      map_of (anchor_attributes a) (js ''href'') \<noteq> Some [])"
proof -
  have ne: "js ''target'' \<noteq> js ''href''" by (simp add: js_def)
  show "list_all (\<lambda>(k, v). k = js ''href'' \<or> (k = js ''target'' \<and> v = js ''_blank''))
          (anchor_attributes a)"
    unfolding anchor_attributes_eq by (auto simp: list_all_iff)
  have m: "map_of (anchor_attributes a) (js ''href'') = map_of a (js ''href'')"
    unfolding anchor_attributes_eq using ne
    by (auto simp: map_of_filter_key map_add_def split: option.splits)
  show "(js ''target'' \<in> fst ` set (anchor_attributes a)) =
     (map_of (anchor_attributes a) (js ''href'') \<noteq> None \<and>
      map_of (anchor_attributes a) (js ''href'') \<noteq> Some [])"
    unfolding m unfolding anchor_attributes_eq using ne by auto
qed

lemma unwrapped_shape: "href_target_only (unwrapped n)"
proof (induction n rule: unwrapped.induct)
  case (1 t a cs)
  show ?case
  proof (cases "t = js ''a''")
    case True
    have "list_all href_target_only (map unwrapped cs)"
      using 1 True by (simp add: list_all_iff)
    then show ?thesis using True anchor_attributes_shape[of a] by simp
  next
    case False
    then show ?thesis by simp
  qed
qed simp_all

section \<open>The handlers: validation and the debug flag\<close>

lemma param_trim_empty:
  "q ev = None \<or> (\<exists>s. q ev = Some s \<and> trim s = []) \<Longrightarrow> param_trim (q ev) = []"
  by (auto simp: param_trim_def trim_def strip_ends_def)

text \<open>
  C5. When the subject parameter is absent or trims to the empty string, each handler
  answers 400 with the body \<open>{ error: "Missing q" }\<close>, and the list of URLs it has fetched is
  empty: the two-strategy handler, the eight-item and five-item handlers, the plain-text
  handler and the four-strategy handler alike.
\<close>

theorem missing_subject_rejected:
  assumes "q ev = None \<or> (\<exists>s. q ev = Some s \<and> trim s = [])"
  shows "handler_feed w ev = (json 400 (ErrorBody (js ''Missing q'') None), []) \<and>
         handler_eight w ev = (json 400 (ErrorBody (js ''Missing q'') None), []) \<and>
         handler_five w ev = (json 400 (ErrorBody (js ''Missing q'') None), []) \<and>
         handler_plain w ev = (json 400 (ErrorBody (js ''Missing q'') None), []) \<and>
         handler_site w ev = (Inr (json 400 (ErrorBody (js ''Missing q'') None)), [])"
proof -
  have e: "param_trim (q ev) = []" using assms by (rule param_trim_empty)
  show ?thesis
    by (simp add: handler_feed_def handler_eight_def handler_five_def handler_window_def
        handler_plain_def handler_site_def e)
qed

theorem missing_subject_rejected_witness:
  "trim (js ''  '') = [] \<and>
   statusCode (fst (handler_feed offline \<lparr>q = Some (js ''  ''), mode = None, debug = None\<rparr>)) = 400 \<and>
   snd (handler_feed offline \<lparr>q = Some (js ''  ''), mode = None, debug = None\<rparr>) = [] \<and>
   statusCode (fst (handler_eight offline \<lparr>q = Some (js ''  ''), mode = None, debug = None\<rparr>)) = 400 \<and>
   snd (handler_eight offline \<lparr>q = Some (js ''  ''), mode = None, debug = None\<rparr>) = []"
proof -
  have t: "trim (js ''  '') = []" by code_simp
  then have "q \<lparr>q = Some (js ''  ''), mode = None, debug = None\<rparr> = None \<or>
    (\<exists>s. q \<lparr>q = Some (js ''  ''), mode = None, debug = None\<rparr> = Some s \<and> trim s = [])"
    by simp
  from missing_subject_rejected[OF this, of offline] t show ?thesis
    by (simp add: json_def)
qed

text \<open>
  The handlers of the tag-crawl variants read the debug parameter once, when they build the
  body of a successful response.
\<close>

lemma handler_window_debug:
  "statusCode (fst (handler_window lo hi pay w (ev\<lparr>debug := d\<rparr>))) =
     statusCode (fst (handler_window lo hi pay w ev)) \<and>
   without_debug (body (fst (handler_window lo hi pay w (ev\<lparr>debug := d\<rparr>)))) =
     without_debug (body (fst (handler_window lo hi pay w ev))) \<and>
   snd (handler_window lo hi pay w (ev\<lparr>debug := d\<rparr>)) = snd (handler_window lo hi pay w ev)"
  by (simp add: handler_window_def Let_def json_def split: prod.splits sum.splits)

lemma handler_plain_debug:
  "statusCode (fst (handler_plain w (ev\<lparr>debug := d\<rparr>))) = statusCode (fst (handler_plain w ev)) \<and>
   without_debug (body (fst (handler_plain w (ev\<lparr>debug := d\<rparr>)))) =
     without_debug (body (fst (handler_plain w ev))) \<and>
   snd (handler_plain w (ev\<lparr>debug := d\<rparr>)) = snd (handler_plain w ev)"
  by (simp add: handler_plain_def Let_def json_def split: prod.splits sum.splits)

lemma items_of_without_debug: "items_of (without_debug b) = items_of b"
  by (cases b) auto

lemma handler_window_no_flag:
  "debug_flag ev \<or> statusCode (fst (handler_window lo hi pay w ev)) = 500 \<or>
   debug_of (body (fst (handler_window lo hi pay w ev))) = None"
  by (simp add: handler_window_def Let_def json_def split: prod.splits sum.splits)

lemma handler_plain_no_flag:
  "debug_flag ev \<or> statusCode (fst (handler_plain w ev)) = 500 \<or>
   debug_of (body (fst (handler_plain w ev))) = None"
  by (simp add: handler_plain_def Let_def json_def split: prod.splits sum.splits)

text \<open>
  C9. For every world (the fetched documents) and every request, changing the debug parameter
  changes neither the status, nor the items, nor the URLs fetched: the two responses are equal
  once the debug object is taken out of a successful body. Without the flag a response
  carries no debug object unless it is the 500 answer, whose body has one in every run. This
  holds of the plain-text handler and of the eight-item and five-item handlers.
\<close>

theorem debug_flag_only_adds_trace:
  "items_of (body (fst (handler_plain w (ev\<lparr>debug := d\<rparr>)))) = items_of (body (fst (handler_plain w ev))) \<and>
   statusCode (fst (handler_plain w (ev\<lparr>debug := d\<rparr>))) = statusCode (fst (handler_plain w ev)) \<and>
   without_debug (body (fst (handler_plain w (ev\<lparr>debug := d\<rparr>)))) =
     without_debug (body (fst (handler_plain w ev))) \<and>
   snd (handler_plain w (ev\<lparr>debug := d\<rparr>)) = snd (handler_plain w ev) \<and>
   (debug_flag ev \<or> statusCode (fst (handler_plain w ev)) = 500 \<or>
    debug_of (body (fst (handler_plain w ev))) = None) \<and>
   items_of (body (fst (handler_eight w (ev\<lparr>debug := d\<rparr>)))) = items_of (body (fst (handler_eight w ev))) \<and>
   statusCode (fst (handler_eight w (ev\<lparr>debug := d\<rparr>))) = statusCode (fst (handler_eight w ev)) \<and>
   without_debug (body (fst (handler_eight w (ev\<lparr>debug := d\<rparr>)))) =
     without_debug (body (fst (handler_eight w ev))) \<and>
   snd (handler_eight w (ev\<lparr>debug := d\<rparr>)) = snd (handler_eight w ev) \<and>
   (debug_flag ev \<or> statusCode (fst (handler_eight w ev)) = 500 \<or>
    debug_of (body (fst (handler_eight w ev))) = None) \<and>
   items_of (body (fst (handler_five w (ev\<lparr>debug := d\<rparr>)))) = items_of (body (fst (handler_five w ev))) \<and>
   without_debug (body (fst (handler_five w (ev\<lparr>debug := d\<rparr>)))) =
     without_debug (body (fst (handler_five w ev)))"
proof -
  have p: "items_of (body (fst (handler_plain w (ev\<lparr>debug := d\<rparr>)))) =
           items_of (body (fst (handler_plain w ev)))"
    using handler_plain_debug[where w=w and ev=ev and d=d] items_of_without_debug by metis
  have e: "items_of (body (fst (handler_window lo hi pay w (ev\<lparr>debug := d\<rparr>)))) =
           items_of (body (fst (handler_window lo hi pay w ev)))" for lo hi pay
    using handler_window_debug[where lo=lo and hi=hi and pay=pay and w=w and ev=ev and d=d] items_of_without_debug by metis
  show ?thesis
    unfolding handler_eight_def handler_five_def
    using p e handler_plain_debug[where w=w and ev=ev and d=d]
      handler_window_debug[where w=w and ev=ev and d=d]
      handler_plain_no_flag[where w=w and ev=ev] handler_window_no_flag[where w=w and ev=ev]
    by simp
qed

theorem debug_flag_only_adds_trace_witness:
  "map out_date (the (items_of (body (fst (handler_eight demo (demo_event None)))))) =
     [js ''2025-10-14'', js ''2025-10-14''] \<and>
   items_of (body (fst (handler_eight demo (demo_event (Some (js ''1'')))))) =
     items_of (body (fst (handler_eight demo (demo_event None))))"
proof -
  have 1: "map out_date (the (items_of (body (fst (handler_eight demo (demo_event None)))))) =
     [js ''2025-10-14'', js ''2025-10-14'']"
    by code_simp
  have 2: "demo_event (Some (js ''1'')) = (demo_event None)\<lparr>debug := Some (js ''1'')\<rparr>"
    by (simp add: demo_event_def)
  from debug_flag_only_adds_trace[where w=demo and ev="demo_event None" and d="Some (js ''1'')"] 1
  show ?thesis unfolding 2 by blast
qed

section \<open>Failure isolation of the acquisition strategies\<close>

lemma catch_empty_Inr: "\<exists>items d l. catch_empty r = (Inr items, d, l)"
  by (cases r rule: prod_cases3) (auto simp: catch_empty_def split: sum.splits)

lemma catch_empty_Inl: "isl (fst r) \<Longrightarrow> fst (catch_empty r) = Inr []"
  by (cases r rule: prod_cases3) (auto simp: catch_empty_def split: sum.splits)

lemma orchestrate_total:
  "\<forall>s \<in> set ss. \<forall>d. \<exists>items d' l. s d = (Inr items, d', l) \<Longrightarrow>
   \<exists>items d' l. orchestrate ss dbg = (Inr items, d', l)"
proof (induction ss arbitrary: dbg)
  case Nil
  then show ?case by simp
next
  case (Cons s ss)
  obtain items d1 l1 where s: "s dbg = (Inr items, d1, l1)" using Cons.prems by fastforce
  obtain items2 d2 l2 where r: "orchestrate ss d1 = (Inr items2, d2, l2)"
    using Cons.IH[of d1] Cons.prems by fastforce
  show ?case using s r by simp
qed

lemma orchestrate_exhausted:
  "\<forall>s \<in> set ss. \<forall>d. fst (s d) = Inr [] \<Longrightarrow> fst (orchestrate ss dbg) = Inr []"
proof (induction ss arbitrary: dbg)
  case Nil
  then show ?case by simp
next
  case (Cons s ss)
  have "fst (s dbg) = Inr []" using Cons.prems by simp
  then obtain d1 l1 where s: "s dbg = (Inr [], d1, l1)"
    by (cases "s dbg" rule: prod_cases3) simp
  have "fst (orchestrate ss d1) = Inr []" using Cons by simp
  then obtain d2 l2 where "orchestrate ss d1 = (Inr [], d2, l2)"
    by (cases "orchestrate ss d1" rule: prod_cases3) simp
  then show ?case using s by simp
qed

lemma strategies_total:
  "\<forall>s \<in> set (strategies w query matcher). \<forall>d. \<exists>items d' l. s d = (Inr items, d', l)"
  by (simp add: strategies_def fromSearchRSS_def fromSearchHTML_def fromRumorsFeed_def
      fromRumorsIndex_def catch_empty_Inr)

lemma parse_feed_fetch_failed:
  "isl (fst (fetchText_site w u)) \<Longrightarrow> isl (fst (parse_feed w (Inr u)))"
  by (auto simp: parse_feed_def split: prod.splits sum.splits)

lemma handler_site_total:
  "\<exists>r l. handler_site w ev = (Inr r, l) \<and>
     statusCode r = (if param_trim (q ev) = [] then 400 else 200)"
proof (cases "param_trim (q ev) = []")
  case True
  then show ?thesis by (simp add: handler_site_def json_def)
next
  case False
  obtain items d l where
    "orchestrate (strategies w (param_trim (q ev)) (matchMode w (param_trim (q ev)) (mode_param w ev)))
       Map.empty = (Inr items, d, l)"
    using orchestrate_total[OF strategies_total] by blast
  then show ?thesis using False by (simp add: handler_site_def json_def)
qed

lemma handler_site_exhausted:
  assumes "param_trim (q ev) \<noteq> []"
    and "\<forall>s \<in> set (strategies w (param_trim (q ev)) (matchMode w (param_trim (q ev)) (mode_param w ev))).
           \<forall>d. fst (s d) = Inr []"
  shows "\<exists>r l. handler_site w ev = (Inr r, l) \<and> statusCode r = 200 \<and> items_of (body r) = Some []"
proof -
  have "fst (orchestrate (strategies w (param_trim (q ev))
          (matchMode w (param_trim (q ev)) (mode_param w ev))) Map.empty) = Inr []"
    using assms(2) by (rule orchestrate_exhausted)
  then show ?thesis using assms(1)
    by (auto simp: handler_site_def json_def Let_def split: prod.splits sum.splits)
qed

text \<open>
  The page loop of \<open>getFromIndex\<close>: a rejected fetch of any page throws; when every page is
  answered the loop returns, and when no answer is \<open>ok\<close> it returns what it started with. The
  filter throws only when the matcher does.
\<close>

lemma index_pages_rejected:
  "\<exists>u \<in> set us. \<exists>e. fetch w u = Rejected e \<Longrightarrow> isl (fst (index_pages w us acc))"
proof (induction us arbitrary: acc)
  case Nil
  then show ?case by simp
next
  case (Cons u us)
  show ?case
  proof (cases "fetch w u")
    case (Rejected e)
    then show ?thesis by simp
  next
    case (Response status html)
    then have "\<exists>u \<in> set us. \<exists>e. fetch w u = Rejected e" using Cons.prems by auto
    then have "isl (fst (index_pages w us
                 (if ok status then acc @ article_links w (jsdom_html w html) else acc)))"
      by (rule Cons.IH)
    then show ?thesis using Response by (auto split: prod.splits if_splits)
  qed
qed

lemma index_pages_answered:
  "\<forall>u \<in> set us. \<exists>status html. fetch w u = Response status html \<Longrightarrow>
   \<exists>r. fst (index_pages w us acc) = Inr r"
proof (induction us arbitrary: acc)
  case Nil
  then show ?case by simp
next
  case (Cons u us)
  obtain status html where f: "fetch w u = Response status html" using Cons.prems by auto
  have "\<forall>u \<in> set us. \<exists>status html. fetch w u = Response status html" using Cons.prems by simp
  then obtain r where "fst (index_pages w us
      (if ok status then acc @ article_links w (jsdom_html w html) else acc)) = Inr r"
    using Cons.IH by blast
  then show ?case using f by (auto split: prod.splits if_splits)
qed

lemma index_pages_not_ok:
  "\<forall>u \<in> set us. \<exists>status html. fetch w u = Response status html \<and> \<not> ok status \<Longrightarrow>
   fst (index_pages w us acc) = Inr acc"
proof (induction us arbitrary: acc)
  case Nil
  then show ?case by simp
next
  case (Cons u us)
  obtain status html where f: "fetch w u = Response status html" "\<not> ok status"
    using Cons.prems by auto
  have "\<forall>u \<in> set us. \<exists>status html. fetch w u = Response status html \<and> \<not> ok status"
    using Cons.prems by simp
  then have "fst (index_pages w us acc) = Inr acc" by (rule Cons.IH)
  then show ?case using f by (auto split: prod.splits if_splits)
qed

lemma filter_throwing_total:
  "\<forall>x \<in> set xs. \<not> isl (m x) \<Longrightarrow> \<exists>ys. filter_throwing m xs = Inr ys"
  by (induction xs) (auto split: sum.splits)

lemma getFromIndex_rejected:
  assumes "\<exists>u \<in> set [RUMORS_INDEX, RUMORS_INDEX @ js ''page/2/'', RUMORS_INDEX @ js ''page/3/''].
             \<exists>e. fetch w u = Rejected e"
  shows "isl (fst (getFromIndex w query md))"
proof -
  have "isl (fst (index_pages w
          [RUMORS_INDEX, RUMORS_INDEX @ js ''page/2/'', RUMORS_INDEX @ js ''page/3/''] []))"
    using assms by (rule index_pages_rejected)
  then show ?thesis
    unfolding getFromIndex_def
    by (cases "index_pages w
          [RUMORS_INDEX, RUMORS_INDEX @ js ''page/2/'', RUMORS_INDEX @ js ''page/3/''] []")
       (auto split: sum.splits)
qed

lemma getFromIndex_answered:
  assumes "\<forall>u \<in> set [RUMORS_INDEX, RUMORS_INDEX @ js ''page/2/'', RUMORS_INDEX @ js ''page/3/''].
             \<exists>status html. fetch w u = Response status html"
    and "\<forall>txt. \<not> isl (matchMode w query md txt)"
  shows "\<exists>items. fst (getFromIndex w query md) = Inr items"
proof -
  obtain acc where a: "fst (index_pages w
          [RUMORS_INDEX, RUMORS_INDEX @ js ''page/2/'', RUMORS_INDEX @ js ''page/3/''] []) = Inr acc"
    using index_pages_answered[OF assms(1)] by blast
  obtain filt where f: "filter_throwing (\<lambda>x. matchMode w query md (title x)) acc = Inr filt"
    using filter_throwing_total[of acc "\<lambda>x. matchMode w query md (title x)"] assms(2) by blast
  show ?thesis
    unfolding getFromIndex_def using a f
    by (cases "index_pages w
          [RUMORS_INDEX, RUMORS_INDEX @ js ''page/2/'', RUMORS_INDEX @ js ''page/3/''] []")
       (simp add: Let_def)
qed

lemma getFromIndex_not_ok:
  assumes "\<forall>u \<in> set [RUMORS_INDEX, RUMORS_INDEX @ js ''page/2/'', RUMORS_INDEX @ js ''page/3/''].
             \<exists>status html. fetch w u = Response status html \<and> \<not> ok status"
  shows "getFromIndex w query md =
           (Inr [], [RUMORS_INDEX, RUMORS_INDEX @ js ''page/2/'', RUMORS_INDEX @ js ''page/3/''])"
proof -
  obtain s1 h1 s2 h2 s3 h3 where
    "fetch w RUMORS_INDEX = Response s1 h1" "\<not> ok s1"
    "fetch w (RUMORS_INDEX @ js ''page/2/'') = Response s2 h2" "\<not> ok s2"
    "fetch w (RUMORS_INDEX @ js ''page/3/'') = Response s3 h3" "\<not> ok s3"
    using assms by auto
  then show ?thesis
    by (simp add: getFromIndex_def slice_def array_sort_def)
qed

text \<open>
  The handler of the two-strategy variant, by what its two strategies do.
\<close>

lemma handler_feed_first:
  "param_trim (q ev) \<noteq> [] \<Longrightarrow>
   fst (getFromRSS w (param_trim (q ev)) (mode_param w ev)) = Inr items \<Longrightarrow>
   fst (handler_feed w ev) = json 200 (ItemsBody (param_trim (q ev)) items None)"
  by (auto simp: handler_feed_def Let_def split: prod.splits sum.splits)

lemma handler_feed_fallback:
  "param_trim (q ev) \<noteq> [] \<Longrightarrow>
   isl (fst (getFromRSS w (param_trim (q ev)) (mode_param w ev))) \<Longrightarrow>
   fst (getFromIndex w (param_trim (q ev)) (mode_param w ev)) = Inr items \<Longrightarrow>
   fst (handler_feed w ev) = json 200 (ItemsBody (param_trim (q ev)) items None)"
  by (auto simp: handler_feed_def Let_def split: prod.splits sum.splits)

lemma handler_feed_failed:
  "param_trim (q ev) \<noteq> [] \<Longrightarrow>
   isl (fst (getFromRSS w (param_trim (q ev)) (mode_param w ev))) \<Longrightarrow>
   fst (getFromIndex w (param_trim (q ev)) (mode_param w ev)) = Inl e \<Longrightarrow>
   fst (handler_feed w ev) = json 500 (ErrorBody (message_or_unknown e) None)"
  by (auto simp: handler_feed_def Let_def split: prod.splits sum.splits)

lemma getFromRSS_unreachable:
  "(\<forall>status xml. fetch w RUMORS_FEED = Response status xml \<and> \<not> ok status \<longrightarrow>
      fst (getFromRSS w query md) = Inl (Error (js ''RSS not reachable''))) \<and>
   (\<forall>e. fetch w RUMORS_FEED = Rejected e \<longrightarrow> fst (getFromRSS w query md) = Inl e)"
  by (auto simp: getFromRSS_def)

text \<open>
  C3, as the code has it. In the four-strategy variant each strategy returns a list and never
  an exception, whatever the world does; it returns the empty list when the body of its
  \<open>try\<close> throws, in particular when its primary fetch fails. Its handler therefore always
  returns a response, with status 200 when the subject is present, and with an empty item
  list when every strategy comes back empty. In the two-strategy variant the strategies have
  no boundary of their own. \<open>getFromRSS\<close> throws when the feed cannot be fetched or is not
  \<open>ok\<close>. \<open>getFromIndex\<close> throws when the fetch of one of its three index pages is rejected;
  an index page that is answered but not \<open>ok\<close> is skipped, so that with three such pages the
  strategy returns the empty list; and when the three pages are answered and the matcher does
  not throw, the strategy returns a list. The handler answers 200 with the items of
  \<open>getFromRSS\<close> when it returns, 200 with the items of \<open>getFromIndex\<close> when \<open>getFromRSS\<close>
  throws and \<open>getFromIndex\<close> returns, and 500 with the message of the exception when both
  throw; when neither the feed nor any index page is \<open>ok\<close>, it answers 200 with an empty item
  list.
\<close>

theorem strategies_failure_isolated:
  "(\<exists>items d l. fromSearchRSS w query matcher dbg = (Inr items, d, l)) \<and>
   (\<exists>items d l. fromSearchHTML w query matcher dbg = (Inr items, d, l)) \<and>
   (\<exists>items d l. fromRumorsFeed w query matcher dbg = (Inr items, d, l)) \<and>
   (\<exists>items d l. fromRumorsIndex w query matcher dbg = (Inr items, d, l)) \<and>
   (isl (fst (fromSearchRSS_try w query matcher dbg)) \<longrightarrow>
      fst (fromSearchRSS w query matcher dbg) = Inr []) \<and>
   (isl (fst (fromSearchHTML_try w query matcher dbg)) \<longrightarrow>
      fst (fromSearchHTML w query matcher dbg) = Inr []) \<and>
   (isl (fst (fromRumorsFeed_try w query matcher dbg)) \<longrightarrow>
      fst (fromRumorsFeed w query matcher dbg) = Inr []) \<and>
   (isl (fst (fromRumorsIndex_try w query matcher dbg)) \<longrightarrow>
      fst (fromRumorsIndex w query matcher dbg) = Inr []) \<and>
   (isl (fst (fetchText_site w RUMORS_FEED)) \<longrightarrow>
      fst (fromRumorsFeed w query matcher dbg) = Inr []) \<and>
   (isl (fst (fetchText_site w RUMORS_INDEX)) \<longrightarrow>
      fst (fromRumorsIndex w query matcher dbg) = Inr []) \<and>
   (\<forall>u. SEARCH_RSS w query = Inr u \<and> isl (fst (fetchText_site w u)) \<longrightarrow>
      fst (fromSearchRSS w query matcher dbg) = Inr []) \<and>
   (\<forall>u. SEARCH_HTML w query = Inr u \<and> isl (fst (fetchText_site w u)) \<longrightarrow>
      fst (fromSearchHTML w query matcher dbg) = Inr []) \<and>
   (\<exists>r l. handler_site w ev = (Inr r, l) \<and>
      statusCode r = (if param_trim (q ev) = [] then 400 else 200)) \<and>
   (param_trim (q ev) \<noteq> [] \<and>
    (\<forall>s \<in> set (strategies w (param_trim (q ev)) (matchMode w (param_trim (q ev)) (mode_param w ev))).
       \<forall>d. fst (s d) = Inr []) \<longrightarrow>
    (\<exists>r l. handler_site w ev = (Inr r, l) \<and> statusCode r = 200 \<and> items_of (body r) = Some [])) \<and>
   (\<forall>status xml. fetch w RUMORS_FEED = Response status xml \<and> \<not> ok status \<longrightarrow>
      fst (getFromRSS w query md) = Inl (Error (js ''RSS not reachable''))) \<and>
   (\<forall>e. fetch w RUMORS_FEED = Rejected e \<longrightarrow> fst (getFromRSS w query md) = Inl e) \<and>
   (\<forall>e. fetch w RUMORS_INDEX = Rejected e \<longrightarrow> fst (getFromIndex w query md) = Inl e) \<and>
   ((\<exists>u \<in> set [RUMORS_INDEX, RUMORS_INDEX @ js ''page/2/'', RUMORS_INDEX @ js ''page/3/'']. \<exists>e. fetch w u = Rejected e) \<longrightarrow>
      isl (fst (getFromIndex w query md))) \<and>
   ((\<forall>u \<in> set [RUMORS_INDEX, RUMORS_INDEX @ js ''page/2/'', RUMORS_INDEX @ js ''page/3/'']. \<exists>status html. fetch w u = Response status html \<and> \<not> ok status) \<longrightarrow>
      fst (getFromIndex w query md) = Inr []) \<and>
   ((\<forall>u \<in> set [RUMORS_INDEX, RUMORS_INDEX @ js ''page/2/'', RUMORS_INDEX @ js ''page/3/'']. \<exists>status html. fetch w u = Response status html) \<and>
    (\<forall>txt. \<not> isl (matchMode w query md txt)) \<longrightarrow>
      (\<exists>items. fst (getFromIndex w query md) = Inr items)) \<and>
   (\<forall>items. param_trim (q ev) \<noteq> [] \<and>
      fst (getFromRSS w (param_trim (q ev)) (mode_param w ev)) = Inr items \<longrightarrow>
      fst (handler_feed w ev) = json 200 (ItemsBody (param_trim (q ev)) items None)) \<and>
   (\<forall>items. param_trim (q ev) \<noteq> [] \<and>
      isl (fst (getFromRSS w (param_trim (q ev)) (mode_param w ev))) \<and>
      fst (getFromIndex w (param_trim (q ev)) (mode_param w ev)) = Inr items \<longrightarrow>
      fst (handler_feed w ev) = json 200 (ItemsBody (param_trim (q ev)) items None)) \<and>
   (\<forall>e. param_trim (q ev) \<noteq> [] \<and>
      isl (fst (getFromRSS w (param_trim (q ev)) (mode_param w ev))) \<and>
      fst (getFromIndex w (param_trim (q ev)) (mode_param w ev)) = Inl e \<longrightarrow>
      fst (handler_feed w ev) = json 500 (ErrorBody (message_or_unknown e) None)) \<and>
   (param_trim (q ev) \<noteq> [] \<and>
    (\<forall>u \<in> set (RUMORS_FEED # [RUMORS_INDEX, RUMORS_INDEX @ js ''page/2/'', RUMORS_INDEX @ js ''page/3/'']).
       \<exists>status text. fetch w u = Response status text \<and> \<not> ok status) \<longrightarrow>
      fst (handler_feed w ev) = json 200 (ItemsBody (param_trim (q ev)) [] None))"
proof -
  have feed: "fst (fromRumorsFeed w query matcher dbg) = Inr []"
    if "isl (fst (fetchText_site w RUMORS_FEED))"
  proof -
    have "isl (fst (fromRumorsFeed_try w query matcher dbg))"
      using parse_feed_fetch_failed[OF that]
      by (auto simp: fromRumorsFeed_try_def split: prod.splits sum.splits)
    then show ?thesis unfolding fromRumorsFeed_def by (rule catch_empty_Inl)
  qed
  have index: "fst (fromRumorsIndex w query matcher dbg) = Inr []"
    if "isl (fst (fetchText_site w RUMORS_INDEX))"
  proof -
    have "isl (fst (fromRumorsIndex_try w query matcher dbg))"
      using that by (auto simp: fromRumorsIndex_try_def split: prod.splits sum.splits)
    then show ?thesis unfolding fromRumorsIndex_def by (rule catch_empty_Inl)
  qed
  have rss: "fst (fromSearchRSS w query matcher dbg) = Inr []"
    if "SEARCH_RSS w query = Inr u" "isl (fst (fetchText_site w u))" for u
  proof -
    have "isl (fst (fromSearchRSS_try w query matcher dbg))"
      using parse_feed_fetch_failed[OF that(2)] that(1)
      by (auto simp: fromSearchRSS_try_def split: prod.splits sum.splits)
    then show ?thesis unfolding fromSearchRSS_def by (rule catch_empty_Inl)
  qed
  have html: "fst (fromSearchHTML w query matcher dbg) = Inr []"
    if "SEARCH_HTML w query = Inr u" "isl (fst (fetchText_site w u))" for u
  proof -
    have "isl (fst (fromSearchHTML_try w query matcher dbg))"
      using that by (auto simp: fromSearchHTML_try_def split: prod.splits sum.splits)
    then show ?thesis unfolding fromSearchHTML_def by (rule catch_empty_Inl)
  qed
  have two: "\<forall>status xml. fetch w RUMORS_FEED = Response status xml \<and> \<not> ok status \<longrightarrow>
      fst (getFromRSS w query md) = Inl (Error (js ''RSS not reachable''))"
    "\<forall>e. fetch w RUMORS_FEED = Rejected e \<longrightarrow> fst (getFromRSS w query md) = Inl e"
    "\<forall>e. fetch w RUMORS_INDEX = Rejected e \<longrightarrow> fst (getFromIndex w query md) = Inl e"
    by (auto simp: getFromRSS_def getFromIndex_def)
  have idx: "(\<exists>u \<in> set [RUMORS_INDEX, RUMORS_INDEX @ js ''page/2/'', RUMORS_INDEX @ js ''page/3/'']. \<exists>e. fetch w u = Rejected e) \<longrightarrow>
      isl (fst (getFromIndex w query md))"
    "(\<forall>u \<in> set [RUMORS_INDEX, RUMORS_INDEX @ js ''page/2/'', RUMORS_INDEX @ js ''page/3/'']. \<exists>status html. fetch w u = Response status html \<and> \<not> ok status) \<longrightarrow>
      fst (getFromIndex w query md) = Inr []"
    "(\<forall>u \<in> set [RUMORS_INDEX, RUMORS_INDEX @ js ''page/2/'', RUMORS_INDEX @ js ''page/3/'']. \<exists>status html. fetch w u = Response status html) \<and>
     (\<forall>txt. \<not> isl (matchMode w query md txt)) \<longrightarrow>
      (\<exists>items. fst (getFromIndex w query md) = Inr items)"
    using getFromIndex_rejected[of w query md] getFromIndex_not_ok[of w query md]
      getFromIndex_answered[of w query md]
    by simp_all
  have hf: "\<forall>items. param_trim (q ev) \<noteq> [] \<and>
      fst (getFromRSS w (param_trim (q ev)) (mode_param w ev)) = Inr items \<longrightarrow>
      fst (handler_feed w ev) = json 200 (ItemsBody (param_trim (q ev)) items None)"
    "\<forall>items. param_trim (q ev) \<noteq> [] \<and>
      isl (fst (getFromRSS w (param_trim (q ev)) (mode_param w ev))) \<and>
      fst (getFromIndex w (param_trim (q ev)) (mode_param w ev)) = Inr items \<longrightarrow>
      fst (handler_feed w ev) = json 200 (ItemsBody (param_trim (q ev)) items None)"
    "\<forall>e. param_trim (q ev) \<noteq> [] \<and>
      isl (fst (getFromRSS w (param_trim (q ev)) (mode_param w ev))) \<and>
      fst (getFromIndex w (param_trim (q ev)) (mode_param w ev)) = Inl e \<longrightarrow>
      fst (handler_feed w ev) = json 500 (ErrorBody (message_or_unknown e) None)"
    using handler_feed_first[of ev w] handler_feed_fallback[of ev w] handler_feed_failed[of ev w]
    by blast+
  have down: "fst (handler_feed w ev) = json 200 (ItemsBody (param_trim (q ev)) [] None)"
    if p: "param_trim (q ev) \<noteq> []"
      and f: "\<forall>u \<in> set (RUMORS_FEED # [RUMORS_INDEX, RUMORS_INDEX @ js ''page/2/'', RUMORS_INDEX @ js ''page/3/'']).
                \<exists>status text. fetch w u = Response status text \<and> \<not> ok status"
  proof -
    obtain status xml where "fetch w RUMORS_FEED = Response status xml" "\<not> ok status"
      using f by auto
    then have "isl (fst (getFromRSS w (param_trim (q ev)) (mode_param w ev)))"
      using getFromRSS_unreachable[of w "param_trim (q ev)" "mode_param w ev"] by auto
    moreover have "fst (getFromIndex w (param_trim (q ev)) (mode_param w ev)) = Inr []"
      using getFromIndex_not_ok[of w "param_trim (q ev)" "mode_param w ev"] f by simp
    ultimately show ?thesis using p by (rule handler_feed_fallback[rotated])
  qed
  have four: "(\<exists>items d l. fromSearchRSS w query matcher dbg = (Inr items, d, l)) \<and>
     (\<exists>items d l. fromSearchHTML w query matcher dbg = (Inr items, d, l)) \<and>
     (\<exists>items d l. fromRumorsFeed w query matcher dbg = (Inr items, d, l)) \<and>
     (\<exists>items d l. fromRumorsIndex w query matcher dbg = (Inr items, d, l)) \<and>
     (isl (fst (fromSearchRSS_try w query matcher dbg)) \<longrightarrow>
        fst (fromSearchRSS w query matcher dbg) = Inr []) \<and>
     (isl (fst (fromSearchHTML_try w query matcher dbg)) \<longrightarrow>
        fst (fromSearchHTML w query matcher dbg) = Inr []) \<and>
     (isl (fst (fromRumorsFeed_try w query matcher dbg)) \<longrightarrow>
        fst (fromRumorsFeed w query matcher dbg) = Inr []) \<and>
     (isl (fst (fromRumorsIndex_try w query matcher dbg)) \<longrightarrow>
        fst (fromRumorsIndex w query matcher dbg) = Inr []) \<and>
     (isl (fst (fetchText_site w RUMORS_FEED)) \<longrightarrow>
        fst (fromRumorsFeed w query matcher dbg) = Inr []) \<and>
     (isl (fst (fetchText_site w RUMORS_INDEX)) \<longrightarrow>
        fst (fromRumorsIndex w query matcher dbg) = Inr []) \<and>
     (\<forall>u. SEARCH_RSS w query = Inr u \<and> isl (fst (fetchText_site w u)) \<longrightarrow>
        fst (fromSearchRSS w query matcher dbg) = Inr []) \<and>
     (\<forall>u. SEARCH_HTML w query = Inr u \<and> isl (fst (fetchText_site w u)) \<longrightarrow>
        fst (fromSearchHTML w query matcher dbg) = Inr []) \<and>
     (\<exists>r l. handler_site w ev = (Inr r, l) \<and>
        statusCode r = (if param_trim (q ev) = [] then 400 else 200)) \<and>
     (param_trim (q ev) \<noteq> [] \<and>
      (\<forall>s \<in> set (strategies w (param_trim (q ev)) (matchMode w (param_trim (q ev)) (mode_param w ev))).
         \<forall>d. fst (s d) = Inr []) \<longrightarrow>
      (\<exists>r l. handler_site w ev = (Inr r, l) \<and> statusCode r = 200 \<and> items_of (body r) = Some [])) \<and>
     (\<forall>status xml. fetch w RUMORS_FEED = Response status xml \<and> \<not> ok status \<longrightarrow>
        fst (getFromRSS w query md) = Inl (Error (js ''RSS not reachable''))) \<and>
     (\<forall>e. fetch w RUMORS_FEED = Rejected e \<longrightarrow> fst (getFromRSS w query md) = Inl e) \<and>
     (\<forall>e. fetch w RUMORS_INDEX = Rejected e \<longrightarrow> fst (getFromIndex w query md) = Inl e)"
    unfolding fromSearchRSS_def fromSearchHTML_def fromRumorsFeed_def fromRumorsIndex_def
    using catch_empty_Inr catch_empty_Inl feed index rss html two
      handler_site_total[of w ev] handler_site_exhausted[of ev w]
    unfolding fromSearchRSS_def fromSearchHTML_def fromRumorsFeed_def fromRumorsIndex_def
    by (intro conjI allI impI) blast+
  have feed2: "((\<exists>u \<in> set [RUMORS_INDEX, RUMORS_INDEX @ js ''page/2/'', RUMORS_INDEX @ js ''page/3/'']. \<exists>e. fetch w u = Rejected e) \<longrightarrow>
        isl (fst (getFromIndex w query md))) \<and>
     ((\<forall>u \<in> set [RUMORS_INDEX, RUMORS_INDEX @ js ''page/2/'', RUMORS_INDEX @ js ''page/3/'']. \<exists>status html. fetch w u = Response status html \<and> \<not> ok status) \<longrightarrow>
        fst (getFromIndex w query md) = Inr []) \<and>
     ((\<forall>u \<in> set [RUMORS_INDEX, RUMORS_INDEX @ js ''page/2/'', RUMORS_INDEX @ js ''page/3/'']. \<exists>status html. fetch w u = Response status html) \<and>
      (\<forall>txt. \<not> isl (matchMode w query md txt)) \<longrightarrow>
        (\<exists>items. fst (getFromIndex w query md) = Inr items)) \<and>
     (\<forall>items. param_trim (q ev) \<noteq> [] \<and>
        fst (getFromRSS w (param_trim (q ev)) (mode_param w ev)) = Inr items \<longrightarrow>
        fst (handler_feed w ev) = json 200 (ItemsBody (param_trim (q ev)) items None)) \<and>
     (\<forall>items. param_trim (q ev) \<noteq> [] \<and>
        isl (fst (getFromRSS w (param_trim (q ev)) (mode_param w ev))) \<and>
        fst (getFromIndex w (param_trim (q ev)) (mode_param w ev)) = Inr items \<longrightarrow>
        fst (handler_feed w ev) = json 200 (ItemsBody (param_trim (q ev)) items None)) \<and>
     (\<forall>e. param_trim (q ev) \<noteq> [] \<and>
        isl (fst (getFromRSS w (param_trim (q ev)) (mode_param w ev))) \<and>
        fst (getFromIndex w (param_trim (q ev)) (mode_param w ev)) = Inl e \<longrightarrow>
        fst (handler_feed w ev) = json 500 (ErrorBody (message_or_unknown e) None)) \<and>
     (param_trim (q ev) \<noteq> [] \<and>
      (\<forall>u \<in> set (RUMORS_FEED # [RUMORS_INDEX, RUMORS_INDEX @ js ''page/2/'', RUMORS_INDEX @ js ''page/3/'']).
         \<exists>status text. fetch w u = Response status text \<and> \<not> ok status) \<longrightarrow>
        fst (handler_feed w ev) = json 200 (ItemsBody (param_trim (q ev)) [] None))"
    using idx hf down by (intro conjI) blast+
  show ?thesis using conjI[OF four feed2] unfolding conj_assoc .
qed

text \<open>
  Without network the feed strategy of the four-strategy variant returns the empty list and
  the handler answers 200 with no item after its four fetches. When every URL is answered
  503, \<open>getFromIndex\<close> returns the empty list and the handler of the two-strategy variant
  answers 200 with no item.
\<close>

theorem strategies_failure_isolated_witness:
  "isl (fst (fetchText_site offline RUMORS_FEED)) \<and>
   fst (fromRumorsFeed offline (js ''Lakers'') (matchMode offline (js ''Lakers'') (js ''team'')) Map.empty)
     = Inr [] \<and>
   (case handler_site offline \<lparr>q = Some (js ''Lakers''), mode = Some (js ''team''), debug = None\<rparr> of
      (Inr r, l) \<Rightarrow> statusCode r = 200 \<and> items_of (body r) = Some [] \<and> length l = 4
    | (Inl e, l) \<Rightarrow> False) \<and>
   fetch (offline\<lparr>fetch := (\<lambda>u. Response 503 [])\<rparr>) RUMORS_INDEX = Response 503 [] \<and>
   \<not> ok 503 \<and>
   fst (getFromIndex (offline\<lparr>fetch := (\<lambda>u. Response 503 [])\<rparr>) (js ''Lakers'') (js ''team'')) =
     Inr [] \<and>
   fst (handler_feed (offline\<lparr>fetch := (\<lambda>u. Response 503 [])\<rparr>)
          \<lparr>q = Some (js ''Lakers''), mode = Some (js ''team''), debug = None\<rparr>) =
     json 200 (ItemsBody (js ''Lakers'') [] None)"
proof -
  let ?down = "offline\<lparr>fetch := (\<lambda>u. Response 503 [])\<rparr>"
  let ?ev = "\<lparr>q = Some (js ''Lakers''), mode = Some (js ''team''), debug = None\<rparr>"
  have 1: "isl (fst (fetchText_site offline RUMORS_FEED))" by code_simp
  have 2: "(case handler_site offline ?ev of
      (Inr r, l) \<Rightarrow> statusCode r = 200 \<and> items_of (body r) = Some [] \<and> length l = 4
    | (Inl e, l) \<Rightarrow> False)"
    by code_simp
  have 3: "fst (fromRumorsFeed offline (js ''Lakers'') (matchMode offline (js ''Lakers'') (js ''team''))
             Map.empty) = Inr []"
    using strategies_failure_isolated[where w=offline and query="js ''Lakers''"
      and matcher="matchMode offline (js ''Lakers'') (js ''team'')" and dbg=Map.empty] 1
    by blast
  have p: "param_trim (q ?ev) = js ''Lakers''" by code_simp
  have n: "js ''Lakers'' \<noteq> []" by code_simp
  have pn: "param_trim (q ?ev) \<noteq> []" using p n by simp
  have o: "\<not> ok 503" by (simp add: ok_def)
  have f: "\<forall>u \<in> set (RUMORS_FEED #
              [RUMORS_INDEX, RUMORS_INDEX @ js ''page/2/'', RUMORS_INDEX @ js ''page/3/'']).
             \<exists>status text. fetch ?down u = Response status text \<and> \<not> ok status"
    using o by simp
  have g: "\<forall>u \<in> set [RUMORS_INDEX, RUMORS_INDEX @ js ''page/2/'', RUMORS_INDEX @ js ''page/3/''].
             \<exists>status text. fetch ?down u = Response status text \<and> \<not> ok status"
    using o by simp
  note t = strategies_failure_isolated[where w="?down" and ev="?ev" and query="js ''Lakers''"
      and md="js ''team''" and matcher="matchMode ?down (js ''Lakers'') (js ''team'')"
      and dbg=Map.empty]
  have 4: "fst (getFromIndex ?down (js ''Lakers'') (js ''team'')) = Inr []"
    using t g by blast
  have "fst (handler_feed ?down ?ev) = json 200 (ItemsBody (param_trim (q ?ev)) [] None)"
    using t f pn by blast
  then have 5: "fst (handler_feed ?down ?ev) = json 200 (ItemsBody (js ''Lakers'') [] None)"
    unfolding p .
  have 6: "fetch ?down RUMORS_INDEX = Response 503 []" by simp
  show ?thesis using 1 2 3 4 5 6 o by (intro conjI)
qed

text \<open>
  C3 as stated fails in the two-strategy variant: when the feed answers 503, \<open>getFromRSS\<close>
  throws instead of returning an empty list; without network the fetch of the first index
  page is rejected and \<open>getFromIndex\<close> throws too, and the handler ends with the 500 answer
  instead of an empty result.
\<close>

theorem feed_strategy_throws_counterexample:
  "fst (getFromRSS (offline\<lparr>fetch := (\<lambda>u. Response 503 [])\<rparr>) (js ''Lakers'') (js ''team'')) =
     Inl (Error (js ''RSS not reachable'')) \<and>
   fst (getFromIndex offline (js ''Lakers'') (js ''team'')) = Inl (TypeError (js ''fetch failed'')) \<and>
   statusCode (fst (handler_feed offline
     \<lparr>q = Some (js ''Lakers''), mode = Some (js ''team''), debug = None\<rparr>)) = 500 \<and>
   error_of (body (fst (handler_feed offline
     \<lparr>q = Some (js ''Lakers''), mode = Some (js ''team''), debug = None\<rparr>))) =
     Some (js ''fetch failed'')"
  by code_simp

text \<open>
  C4, as the code has it. For every block \<open>p\<close>, the clone the loop leaves is the block's
  children with every non-anchor element replaced by the text node of its text content (an
  anchor inside such an element goes with it) and every remaining anchor keeping, of its
  attributes, \<open>href\<close> alone, to which \<open>target="_blank"\<close> is added when \<open>href\<close> is present and
  not empty; the snippet is the serialization of that clone with every run of white space
  collapsed to one space and the ends trimmed.
\<close>

theorem paragraphHTML_unwraps:
  "sanitized_children p = map unwrapped (children p) \<and>
   paragraphHTML w p =
     trim (replace_runs is_space (js '' '') (innerHTML w (map unwrapped (children p)))) \<and>
   list_all href_target_only (sanitized_children p)"
  by (simp add: paragraphHTML_def sanitized_children_unwrapped list_all_iff unwrapped_shape)

theorem paragraphHTML_unwraps_witness:
  "paragraphHTML offline sample_paragraph =
     js ''See the report of <a href=\"v\" target=\"_blank\">ESPN</a><!--x-->'' \<and>
   list_all href_target_only (sanitized_children sample_paragraph)"
proof -
  have "paragraphHTML offline sample_paragraph =
     js ''See the report of <a href=\"v\" target=\"_blank\">ESPN</a><!--x-->''"
    by code_simp
  with paragraphHTML_unwraps[of sample_paragraph offline] show ?thesis by blast
qed

text \<open>
  C4 as stated fails: in the clone of \<open>sample_paragraph\<close> the anchor that remains carries a
  \<open>target\<close> attribute beside \<open>href\<close>.
\<close>

theorem anchor_keeps_target_counterexample:
  "\<not> list_all href_only (sanitized_children sample_paragraph) \<and>
   sanitized_children sample_paragraph =
     [Text (js ''See ''), Text (js ''the report''), Text (js '' of ''),
      Elem (js ''a'') [(js ''href'', js ''v''), (js ''target'', js ''_blank'')] [Text (js ''ESPN'')],
      Comment (js ''x'')]"
  by code_simp

section \<open>Inherited properties in the lookup tables\<close>

text \<open>
  Apart from a word found on \<open>Object.prototype\<close>, the result of \<open>extractISODate\<close> is empty
  or of the shape \<open>YYYY-MM-DD\<close> with a month from 01 to 12.
\<close>

lemma date_match_at_parts:
  assumes "date_match_at s = Some (m1, m2, m3)"
  shows "(length m2 = 1 \<or> length m2 = 2) \<and> list_all is_digit m2 \<and>
         length m3 = 4 \<and> list_all is_digit m3"
proof -
  have "list_all is_digit (takeWhile is_digit xs)" for xs
    by (auto simp: list_all_iff dest: set_takeWhileD)
  then show ?thesis
    using assms by (auto simp: date_match_at_def Let_def split: if_splits)
qed

lemma date_exec_parts:
  "date_exec s = Some (m1, m2, m3) \<Longrightarrow>
   (length m2 = 1 \<or> length m2 = 2) \<and> list_all is_digit m2 \<and>
   length m3 = 4 \<and> list_all is_digit m3"
proof (induction s)
  case Nil
  then show ?case using date_match_at_parts[of "[]"] by simp
next
  case (Cons c cs)
  then show ?case
    using date_match_at_parts[of "c # cs" m1 m2 m3] by (auto split: option.splits)
qed

lemma two_digits_table:
  "list_all (\<lambda>n. length (padStart2 (dec n)) = 2 \<and> list_all is_digit (padStart2 (dec n)) \<and>
                  parseInt (padStart2 (dec n)) = n) [0..<100]"
  by code_simp

lemma two_digits:
  assumes "n < 100"
  shows "length (padStart2 (dec n)) = 2" "list_all is_digit (padStart2 (dec n))"
    "parseInt (padStart2 (dec n)) = n"
proof -
  have "n \<in> set [0..<100]" using assms by simp
  with two_digits_table show "length (padStart2 (dec n)) = 2"
    "list_all is_digit (padStart2 (dec n))" "parseInt (padStart2 (dec n)) = n"
    unfolding list_all_iff by blast+
qed

lemma digit_value: "is_digit c \<Longrightarrow> unat c - 48 \<le> 9"
  unfolding is_digit_def word_le_nat_alt by simp arith

lemma parseInt_small:
  assumes "length m = 1 \<or> length m = 2" "list_all is_digit m"
  shows "parseInt m < 100"
proof -
  from assms(1) consider a where "m = [a]" | a b where "m = [a, b]"
    by (auto simp: length_Suc_conv eval_nat_numeral)
  then show ?thesis
  proof cases
    case 1
    then show ?thesis using assms(2) digit_value[of a] by (simp add: parseInt_def)
  next
    case 2
    then show ?thesis using assms(2) digit_value[of a] digit_value[of b]
      by (simp add: parseInt_def)
  qed
qed

lemma months_range: "map_of MONTHS k = Some mm \<Longrightarrow> 1 \<le> mm \<and> mm \<le> 12"
  by (drule map_of_SomeD) (auto simp: MONTHS_def)

lemma iso_shape_parts:
  assumes "length y = 4" "list_all is_digit y" "length m = 2" "list_all is_digit m"
    "1 \<le> parseInt m" "parseInt m \<le> 12" "length d = 2" "list_all is_digit d"
  shows "iso_shape (y @ js ''-'' @ m @ js ''-'' @ d)"
proof -
  have j: "js ''-'' = [45]" by (simp add: js_def)
  obtain a b c e where y: "y = [a, b, c, e]"
    using assms(1) by (auto simp: length_Suc_conv eval_nat_numeral)
  obtain f g where m: "m = [f, g]"
    using assms(3) by (auto simp: length_Suc_conv eval_nat_numeral)
  obtain h i where d: "d = [h, i]"
    using assms(7) by (auto simp: length_Suc_conv eval_nat_numeral)
  show ?thesis using assms(2,4,5,6,8) unfolding y m d j iso_shape_def by simp
qed

lemma extractISODate_shape:
  "extractISODate txt = [] \<or> iso_shape (extractISODate txt) \<or>
   (\<exists>m1 m2 m3. date_exec txt = Some (m1, m2, m3) \<and>
      map_of Object_prototype (map lower_ascii m1) \<noteq> None)"
proof (cases "date_exec txt")
  case None
  then show ?thesis by (simp add: extractISODate_def)
next
  case (Some m)
  obtain m1 m2 m3 where m: "m = (m1, m2, m3)" by (cases m) auto
  note p = date_exec_parts[OF Some[unfolded m]]
  have small: "parseInt m2 < 100" using p by (intro parseInt_small) auto
  show ?thesis
  proof (cases "map_of MONTHS (map lower_ascii m1)")
    case None
    show ?thesis
    proof (cases "map_of Object_prototype (map lower_ascii m1)")
      case None
      then show ?thesis
        using \<open>map_of MONTHS (map lower_ascii m1) = None\<close> Some m
        by (simp add: extractISODate_def obj_get_def)
    next
      case (Some f)
      then show ?thesis using \<open>date_exec txt = Some m\<close> m by simp
    qed
  next
    case (Some mm)
    have r: "1 \<le> mm \<and> mm \<le> 12" using Some by (rule months_range)
    then have mm: "mm < 100" "mm \<noteq> 0" by auto
    have "iso_shape (m3 @ js ''-'' @ padStart2 (dec mm) @ js ''-'' @ padStart2 (dec (parseInt m2)))"
      using p r two_digits[OF mm(1)] two_digits[OF small] by (intro iso_shape_parts) auto
    then show ?thesis using Some \<open>date_exec txt = Some m\<close> m mm
      by (simp add: extractISODate_def obj_get_def)
  qed
qed

text \<open>
  C7. \<open>extractISODate("October 15, 2025")\<close> is \<open>"2025-10-15"\<close>. The second half of the claim
  fails on the code: \<open>constructor\<close> is no month of the table, yet \<open>MONTHS["constructor"]\<close> is
  the function \<open>Object\<close> inherited from \<open>Object.prototype\<close>, which is truthy, and the result is
  not the empty string.
\<close>

theorem extractISODate_inherited_month:
  "extractISODate (js ''October 15, 2025'') = js ''2025-10-15'' \<and>
   map_of MONTHS (js ''constructor'') = None \<and>
   date_exec (js ''Constructor 15, 2025'') = Some (js ''Constructor'', js ''15'', js ''2025'') \<and>
   extractISODate (js ''Constructor 15, 2025'') =
     js ''2025-function Object() { [native code] }-15''"
  by code_simp

text \<open>
  \<open>toISO\<close>, the other parsing path, returns the empty string whenever the host's parser rejects
  the input, and has no way to throw.
\<close>

lemma toISO_unparseable: "Date_parse w s = None \<Longrightarrow> toISO w (Some s) = []"
  by (simp add: toISO_def)

text \<open>
  C10. The day is not validated: \<open>extractISODate("October 99, 2025")\<close> is \<open>"2025-10-99"\<close>. The
  first half of the claim fails on the code, by the inherited property again: on
  \<open>"It was constructor 1, 2025"\<close> the result is neither empty nor of the shape \<open>YYYY-MM-DD\<close>.
\<close>

theorem extractISODate_shape_broken:
  "extractISODate (js ''October 99, 2025'') = js ''2025-10-99'' \<and>
   iso_shape (extractISODate (js ''October 99, 2025'')) \<and>
   extractISODate (js ''It was constructor 1, 2025'') =
     js ''2025-function Object() { [native code] }-01'' \<and>
   \<not> iso_shape (extractISODate (js ''It was constructor 1, 2025''))"
  by code_simp

text \<open>
  The matcher built for \<open>"Lakers"\<close> in team mode accepts a text exactly when its lower-case
  form contains one of the three aliases; in particular it accepts an ASCII text that
  contains \<open>Los Angeles Lakers\<close> or \<open>LAL\<close> in any letter case. For a key that neither the
  table nor \<open>Object.prototype\<close> has, the matcher is containment of the lower-cased, trimmed
  subject.
\<close>

lemma lakers_matcher:
  "matchMode w (js ''Lakers'') (js ''team'') txt =
     Inr (sublist (js ''los angeles lakers'') (toLowerCase w txt) \<or>
          sublist (js ''lal'') (toLowerCase w txt) \<or>
          sublist (js ''lakers'') (toLowerCase w txt))"
proof -
  have "obj_get TEAM_ALIASES (filter is_lower (trim (toLowerCase w (js ''Lakers'')))) =
        Own [js ''los angeles lakers'', js ''lal'', js ''lakers'']"
    by code_simp
  moreover have "js ''team'' \<noteq> js ''player''" by code_simp
  ultimately show ?thesis by (simp add: matchMode_def Let_def)
qed

lemma lakers_accepts_ascii:
  assumes "list_all is_ascii txt" and "sublist x txt"
    and "map lower_ascii x = js ''los angeles lakers'' \<or> map lower_ascii x = js ''lal''"
  shows "matchMode w (js ''Lakers'') (js ''team'') txt = Inr True"
proof -
  have "toLowerCase w txt = map lower_ascii txt"
    using assms(1) by (simp add: toLowerCase_def)
  moreover have "sublist (map lower_ascii x) (map lower_ascii txt)"
    using assms(2) by (rule map_mono_sublist)
  ultimately show ?thesis using assms(3) unfolding lakers_matcher by auto
qed

lemma team_fallback:
  assumes "map_of TEAM_ALIASES (filter is_lower (trim (toLowerCase w subject))) = None"
    and "map_of Object_prototype (filter is_lower (trim (toLowerCase w subject))) = None"
  shows "matchMode w subject (js ''team'') txt = Inr (contains_subject w subject txt)"
  using assms by (simp add: matchMode_def Let_def obj_get_def contains_subject_def)

text \<open>
  C8. The first half of the claim holds, by the lemmas above. The second half fails on the
  code: the key \<open>constructor\<close> is absent from the alias table, but
  \<open>TEAM_ALIASES["constructor"]\<close> is the inherited function \<open>Object\<close>, which is truthy and has
  no \<open>some\<close>; the matcher built for the subject \<open>"Constructor"\<close> throws on every text instead
  of testing containment.
\<close>

theorem team_matcher_inherited_key:
  "map_of TEAM_ALIASES (filter is_lower (trim (toLowerCase w (js ''Constructor'')))) = None \<and>
   matchMode w (js ''Constructor'') (js ''team'') txt =
     Inl (TypeError (js ''aliases.some is not a function''))"
  by code_simp


end
